theory Spec2Isabelle
  imports Complex_Main "HOL-Library.Word" "HOL-Library.AList" "HOL-Library.Sublist"
begin

section \<open>JavaScript values\<close>

text \<open>
  A JavaScript string is a sequence of UTF-16 code units; \<open>===\<close> on strings is equality
  of these sequences. \<open>lit\<close> writes an ASCII literal of the source as such a sequence.
\<close>

type_synonym cu = "16 word"
type_synonym jsstring = "cu list"

definition lit :: "string \<Rightarrow> jsstring" where
  "lit s = map of_char s"

text \<open>
  Numbers. \<open>Fin q\<close> is the finite double of value \<open>q\<close>; the negative zero is identified with
  zero, which the program cannot tell apart.
\<close>

datatype jsnum = NaN | PosInf | NegInf | Fin rat

fun is_finite :: "jsnum \<Rightarrow> bool" where
  "is_finite (Fin q) = True"
| "is_finite NaN = False"
| "is_finite PosInf = False"
| "is_finite NegInf = False"

fun negate :: "jsnum \<Rightarrow> jsnum" where
  "negate NaN = NaN"
| "negate PosInf = NegInf"
| "negate NegInf = PosInf"
| "negate (Fin q) = Fin (- q)"

text \<open>
  The values the program handles: what a spreadsheet cell holds (a string, a number, a
  boolean, or nothing), what an accumulator property holds, and \<open>ProtoMember k\<close>, the object
  that reading the property \<open>k\<close> of a plain object yields when \<open>k\<close> is not an own property
  but a member of \<open>Object.prototype\<close>.
\<close>

datatype jsval = Undefined | Null | Bool bool | Num jsnum | Str jsstring | ProtoMember jsstring

fun ToBoolean :: "jsval \<Rightarrow> bool" where
  "ToBoolean Undefined = False"
| "ToBoolean Null = False"
| "ToBoolean (Bool b) = b"
| "ToBoolean (Num n) = (n \<noteq> NaN \<and> n \<noteq> Fin 0)"
| "ToBoolean (Str s) = (s \<noteq> [])"
| "ToBoolean (ProtoMember k) = True"

text \<open>The operator \<open>a || b\<close>.\<close>

definition js_or :: "jsval \<Rightarrow> jsval \<Rightarrow> jsval" where
  "js_or a b = (if ToBoolean a then a else b)"

text \<open>
  What the engine supplies and the source does not define: the rounding of a real number
  to binary64 (the nearest double, or nothing when the magnitude overflows), the digits of a
  non-zero finite number (\<open>Number::toString\<close>), \<open>toFixed(2)\<close>, the collation behind
  \<open>localeCompare\<close>, and the text a built-in member of \<open>Object.prototype\<close> converts to.
\<close>

record engine =
  round64 :: "rat \<Rightarrow> rat option"
  number_digits :: "rat \<Rightarrow> jsstring"
  toFixed2 :: "jsnum \<Rightarrow> jsstring"
  localeCompare :: "jsstring \<Rightarrow> jsstring \<Rightarrow> int"
  builtin_text :: "jsstring \<Rightarrow> jsstring"

text \<open>
  The double of a real number: an integer of magnitude up to \<open>2^53\<close> is a double, any other
  number is rounded by the engine and becomes an infinity when it overflows.
\<close>

definition is_whole :: "rat \<Rightarrow> bool" where
  "is_whole q = (of_int \<lfloor>q\<rfloor> = q)"

definition to_double :: "engine \<Rightarrow> rat \<Rightarrow> jsnum" where
  "to_double E q =
     (if is_whole q \<and> \<bar>q\<bar> \<le> 9007199254740992 then Fin q
      else (case round64 E q of
              Some d \<Rightarrow> Fin d
            | None \<Rightarrow> if 0 < q then PosInf else NegInf))"

text \<open>
  The sum of two numbers: the double of the exact sum of two finite numbers. A sum that is
  an integer is kept as it is; binary64 does so up to \<open>2^53\<close>, which no count over an array
  reaches.
\<close>

fun jsadd :: "engine \<Rightarrow> jsnum \<Rightarrow> jsnum \<Rightarrow> jsnum" where
  "jsadd E (Fin a) (Fin b) = (if is_whole (a + b) then Fin (a + b) else to_double E (a + b))"
| "jsadd E NaN y = NaN"
| "jsadd E x NaN = NaN"
| "jsadd E PosInf NegInf = NaN"
| "jsadd E NegInf PosInf = NaN"
| "jsadd E PosInf y = PosInf"
| "jsadd E x PosInf = PosInf"
| "jsadd E NegInf y = NegInf"
| "jsadd E x NegInf = NegInf"

definition Number_toString :: "engine \<Rightarrow> jsnum \<Rightarrow> jsstring" where
  "Number_toString E n =
     (case n of
        NaN \<Rightarrow> lit ''NaN''
      | PosInf \<Rightarrow> lit ''Infinity''
      | NegInf \<Rightarrow> lit ''-Infinity''
      | Fin q \<Rightarrow> if q = 0 then lit ''0'' else number_digits E q)"

fun ToString :: "engine \<Rightarrow> jsval \<Rightarrow> jsstring" where
  "ToString E Undefined = lit ''undefined''"
| "ToString E Null = lit ''null''"
| "ToString E (Bool b) = (if b then lit ''true'' else lit ''false'')"
| "ToString E (Num n) = Number_toString E n"
| "ToString E (Str s) = s"
| "ToString E (ProtoMember k) = builtin_text E k"

section \<open>String built-ins used by the normalizer\<close>

text \<open>White space and line terminators, as \<open>trim\<close> and \<open>parseFloat\<close> strip them.\<close>

definition isWhiteSpace :: "cu \<Rightarrow> bool" where
  "isWhiteSpace c =
     (c = 9 \<or> c = 10 \<or> c = 11 \<or> c = 12 \<or> c = 13 \<or> c = 32 \<or> c = 160 \<or> c = 5760
      \<or> (8192 \<le> c \<and> c \<le> 8202) \<or> c = 8232 \<or> c = 8233 \<or> c = 8239 \<or> c = 8287
      \<or> c = 12288 \<or> c = 65279)"

definition trim :: "jsstring \<Rightarrow> jsstring" where
  "trim s = rev (dropWhile isWhiteSpace (rev (dropWhile isWhiteSpace s)))"

text \<open>\<open>s.replace(/,/g, "")\<close>: every comma (code unit 44) is dropped.\<close>

definition replace_commas :: "jsstring \<Rightarrow> jsstring" where
  "replace_commas s = filter (\<lambda>c. c \<noteq> 44) s"

definition isDigit :: "cu \<Rightarrow> bool" where
  "isDigit c = (48 \<le> c \<and> c \<le> 57)"

definition digits_value :: "jsstring \<Rightarrow> nat" where
  "digits_value ds = foldl (\<lambda>a c. 10 * a + (unat c - 48)) 0 ds"

definition pow10 :: "int \<Rightarrow> rat" where
  "pow10 e = (if 0 \<le> e then 10 ^ nat e else 1 / 10 ^ nat (- e))"

text \<open>
  The exponent part that follows a mantissa: \<open>e\<close> or \<open>E\<close>, an optional sign and at least one
  digit; anything else is not part of the literal and counts as exponent 0.
\<close>

definition exponent_part :: "jsstring \<Rightarrow> int" where
  "exponent_part s =
     (case s of
        [] \<Rightarrow> 0
      | c # r \<Rightarrow>
          if c = 101 \<or> c = 69 then
            (case r of
               [] \<Rightarrow> 0
             | d # r' \<Rightarrow>
                 if d = 43 then int (digits_value (takeWhile isDigit r'))
                 else if d = 45 then - int (digits_value (takeWhile isDigit r'))
                 else int (digits_value (takeWhile isDigit r)))
          else 0)"

text \<open>
  The longest prefix that is a \<open>StrUnsignedDecimalLiteral\<close>: \<open>Infinity\<close>, or digits with an
  optional fraction and exponent, or a fraction that starts with the point. Its value is
  the double of the decimal it denotes.
\<close>

definition unsigned_literal :: "engine \<Rightarrow> jsstring \<Rightarrow> jsnum option" where
  "unsigned_literal E s =
     (if take 8 s = lit ''Infinity'' then Some PosInf
      else
        let ip = takeWhile isDigit s; r1 = dropWhile isDigit s in
        (case r1 of
           [] \<Rightarrow> if ip = [] then None else Some (to_double E (of_nat (digits_value ip)))
         | c # r2 \<Rightarrow>
             if c = 46 then
               (let fp = takeWhile isDigit r2; r3 = dropWhile isDigit r2 in
                if ip = [] \<and> fp = [] then None
                else Some (to_double E (of_nat (digits_value (ip @ fp))
                                         * pow10 (exponent_part r3 - int (length fp)))))
             else if ip = [] then None
             else Some (to_double E (of_nat (digits_value ip) * pow10 (exponent_part r1)))))"

definition parseFloat :: "engine \<Rightarrow> jsstring \<Rightarrow> jsnum" where
  "parseFloat E s =
     (case dropWhile isWhiteSpace s of
        [] \<Rightarrow> NaN
      | c # r \<Rightarrow>
          if c = 45 then (case unsigned_literal E r of None \<Rightarrow> NaN | Some n \<Rightarrow> negate n)
          else if c = 43 then (case unsigned_literal E r of None \<Rightarrow> NaN | Some n \<Rightarrow> n)
          else (case unsigned_literal E (c # r) of None \<Rightarrow> NaN | Some n \<Rightarrow> n))"

section \<open>Row normalization\<close>

record project =
  Domain' :: jsstring
  ProjectType :: jsstring
  Title :: jsstring
  FundingAgency :: jsstring
  Amount :: jsnum
  Status :: jsstring
  FacultyName :: jsstring

text \<open>
  A raw row of \<open>sheet_to_json\<close>: an object keyed by the column headers. Reading a header
  the sheet does not have yields \<open>undefined\<close>.
\<close>

type_synonym row = "jsstring \<rightharpoonup> jsval"

definition row_get :: "row \<Rightarrow> jsstring \<Rightarrow> jsval" where
  "row_get r k = (case r k of None \<Rightarrow> Undefined | Some v \<Rightarrow> v)"

text \<open>\<open>n || 0\<close> on a number.\<close>

definition num_or_zero :: "jsnum \<Rightarrow> jsnum" where
  "num_or_zero n = (if ToBoolean (Num n) then n else Fin 0)"

definition normalizeRow :: "engine \<Rightarrow> row \<Rightarrow> project" where
  "normalizeRow E r =
     \<lparr> Domain' = trim (ToString E (js_or (row_get r (lit ''Domain'')) (Str []))),
       ProjectType = trim (ToString E (js_or (row_get r (lit ''Project Type'')) (Str []))),
       Title = trim (ToString E (js_or (row_get r (lit ''Title'')) (Str []))),
       FundingAgency = trim (ToString E (js_or (row_get r (lit ''Funding Agency'')) (Str []))),
       Amount = num_or_zero (parseFloat E (replace_commas
                  (ToString E (js_or (row_get r (lit ''Amount(in lakhs)'')) (Str (lit ''0'')))))),
       Status = trim (ToString E (js_or (row_get r (lit ''Status'')) (Str []))),
       FacultyName = trim (ToString E (js_or (row_get r (lit ''Faculty Name'')) (Str []))) \<rparr>"

section \<open>Plain objects as accumulators\<close>

text \<open>
  An accumulator \<open>{}\<close> is an ordinary object whose prototype is \<open>Object.prototype\<close>: its own
  properties, in the order of their creation, and behind them the members every plain
  object inherits.
\<close>

type_synonym jsobject = "(jsstring \<times> jsval) list"

definition proto_names :: "jsstring list" where
  "proto_names = map lit
     [''constructor'', ''__defineGetter__'', ''__defineSetter__'', ''hasOwnProperty'',
      ''__lookupGetter__'', ''__lookupSetter__'', ''isPrototypeOf'', ''propertyIsEnumerable'',
      ''toString'', ''valueOf'', ''__proto__'', ''toLocaleString'']"

text \<open>\<open>obj[k]\<close>: the own property, else the inherited member, else \<open>undefined\<close>.\<close>

definition obj_get :: "jsobject \<Rightarrow> jsstring \<Rightarrow> jsval" where
  "obj_get obj k =
     (case map_of obj k of
        Some v \<Rightarrow> v
      | None \<Rightarrow> if k \<in> set proto_names then ProtoMember k else Undefined)"

text \<open>
  \<open>obj[k] = v\<close> for a number or a string \<open>v\<close>: an own property is overwritten in place, a new
  one is created last; the key \<open>__proto__\<close> reaches the inherited setter, which ignores a
  value that is neither an object nor \<open>null\<close>.
\<close>

definition obj_set :: "jsobject \<Rightarrow> jsstring \<Rightarrow> jsval \<Rightarrow> jsobject" where
  "obj_set obj k v = (if k = lit ''__proto__'' then obj else AList.update k v obj)"

text \<open>
  An array index is the canonical decimal form of an integer below \<open>2^32 - 1\<close>.
  \<open>Object.keys\<close> lists the own keys that are array indices in ascending numeric order, then
  the other own keys in the order of their creation.
\<close>

definition array_index :: "jsstring \<Rightarrow> nat option" where
  "array_index k =
     (if k \<noteq> [] \<and> list_all isDigit k \<and> (k = lit ''0'' \<or> take 1 k \<noteq> lit ''0'')
         \<and> digits_value k < 2 ^ 32 - 1
      then Some (digits_value k) else None)"

definition index_value :: "jsstring \<Rightarrow> nat" where
  "index_value k = (case array_index k of Some i \<Rightarrow> i | None \<Rightarrow> 0)"

definition key_order :: "jsstring list \<Rightarrow> jsstring list" where
  "key_order ks =
     sort_key index_value (filter (\<lambda>k. array_index k \<noteq> None) ks)
       @ filter (\<lambda>k. array_index k = None) ks"

definition Object_keys :: "jsobject \<Rightarrow> jsstring list" where
  "Object_keys obj = key_order (map fst obj)"

definition Object_entries :: "jsobject \<Rightarrow> (jsstring \<times> jsval) list" where
  "Object_entries obj = map (\<lambda>k. (k, obj_get obj k)) (Object_keys obj)"

text \<open>
  The operator \<open>a + b\<close>: when neither operand converts to a string the numbers are added,
  otherwise the two texts are concatenated. \<open>prim_number\<close> is the number of an operand that
  does not convert to a string.
\<close>

fun prim_number :: "jsval \<Rightarrow> jsnum option" where
  "prim_number Undefined = Some NaN"
| "prim_number Null = Some (Fin 0)"
| "prim_number (Bool b) = Some (Fin (if b then 1 else 0))"
| "prim_number (Num n) = Some n"
| "prim_number (Str s) = None"
| "prim_number (ProtoMember k) = None"

definition js_plus :: "engine \<Rightarrow> jsval \<Rightarrow> jsval \<Rightarrow> jsval" where
  "js_plus E a b =
     (case (prim_number a, prim_number b) of
        (Some x, Some y) \<Rightarrow> Num (jsadd E x y)
      | _ \<Rightarrow> Str (ToString E a @ ToString E b))"

text \<open>\<open>s || t\<close> on strings.\<close>

definition str_or :: "jsstring \<Rightarrow> jsstring \<Rightarrow> jsstring" where
  "str_or s t = (if s \<noteq> [] then s else t)"

section \<open>Aggregation\<close>

definition aggregate_step ::
  "engine \<Rightarrow> (project \<Rightarrow> jsstring) \<Rightarrow> (project \<Rightarrow> jsnum) option \<Rightarrow> jsobject \<Rightarrow> project \<Rightarrow> jsobject" where
  "aggregate_step E keyFn valueFn acc r =
     (let key = str_or (keyFn r) (lit ''Unknown'');
          val = (case valueFn of Some f \<Rightarrow> f r | None \<Rightarrow> Fin 1)
      in obj_set acc key (js_plus E (js_or (obj_get acc key) (Num (Fin 0))) (Num val)))"

definition aggregateBy ::
  "engine \<Rightarrow> project list \<Rightarrow> (project \<Rightarrow> jsstring) \<Rightarrow> (project \<Rightarrow> jsnum) option \<Rightarrow> jsobject" where
  "aggregateBy E rows keyFn valueFn = foldl (aggregate_step E keyFn valueFn) [] rows"

section \<open>The filter selects\<close>

text \<open>
  A drop-down \<open>select\<close> element: its options (value and text) and the index of the selected
  one. Its \<open>value\<close> is the value of the selected option, or the empty string.
\<close>

record select =
  options :: "(jsstring \<times> jsstring) list"
  selectedIndex :: "nat option"

definition select_value :: "select \<Rightarrow> jsstring" where
  "select_value s =
     (case selectedIndex s of
        None \<Rightarrow> []
      | Some i \<Rightarrow> if i < length (options s) then fst (options s ! i) else [])"

text \<open>\<open>selectEl.innerHTML = ""\<close>.\<close>

definition clear_select :: "select \<Rightarrow> select" where
  "clear_select s = s\<lparr>options := [], selectedIndex := None\<rparr>"

text \<open>
  \<open>selectEl.appendChild(opt)\<close>: when no option is selected afterwards, the drop-down selects
  its first option.
\<close>

definition append_option :: "select \<Rightarrow> jsstring \<times> jsstring \<Rightarrow> select" where
  "append_option s opt =
     s\<lparr>options := options s @ [opt],
       selectedIndex := (case selectedIndex s of None \<Rightarrow> Some 0 | Some i \<Rightarrow> Some i)\<rparr>"

fun first_index :: "('a \<Rightarrow> bool) \<Rightarrow> 'a list \<Rightarrow> nat option" where
  "first_index p [] = None"
| "first_index p (x # xs) =
     (if p x then Some 0 else (case first_index p xs of None \<Rightarrow> None | Some i \<Rightarrow> Some (Suc i)))"

text \<open>\<open>selectEl.value = v\<close>: the first option with that value is selected, if there is one.\<close>

definition set_select_value :: "select \<Rightarrow> jsstring \<Rightarrow> select" where
  "set_select_value s v = s\<lparr>selectedIndex := first_index (\<lambda>opt. fst opt = v) (options s)\<rparr>"

text \<open>A \<open>Set\<close> of strings, in insertion order.\<close>

definition set_add :: "jsstring list \<Rightarrow> jsstring \<Rightarrow> jsstring list" where
  "set_add s x = (if x \<in> set s then s else s @ [x])"

text \<open>
  \<open>Array.prototype.sort\<close> with a comparator: a stable sort, here by insertion; \<open>x\<close> goes
  before \<open>y\<close> when the comparator's result is not positive.
\<close>

fun sort_insert :: "('a \<Rightarrow> 'a \<Rightarrow> int) \<Rightarrow> 'a \<Rightarrow> 'a list \<Rightarrow> 'a list" where
  "sort_insert cmp x [] = [x]"
| "sort_insert cmp x (y # ys) =
     (if cmp x y \<le> 0 then x # y # ys else y # sort_insert cmp x ys)"

definition array_sort :: "('a \<Rightarrow> 'a \<Rightarrow> int) \<Rightarrow> 'a list \<Rightarrow> 'a list" where
  "array_sort cmp xs = foldr (sort_insert cmp) xs []"

definition fillSelect :: "engine \<Rightarrow> select \<Rightarrow> jsstring list \<Rightarrow> select" where
  "fillSelect E selectEl vals =
     (let current = select_value selectEl;
          s0 = clear_select selectEl;
          s1 = append_option s0 ([], lit ''All'');
          s2 = foldl (\<lambda>s v. append_option s (v, v)) s1 (array_sort (localeCompare E) vals)
      in if current \<noteq> [] \<and> current \<in> set vals then set_select_value s2 current else s2)"

section \<open>Page state\<close>

record chart =
  labels :: "jsstring list"
  series :: "jsval list"

text \<open>
  The record set, the three filter selects, the text of the four summary fields, the cells
  of the table body and the three charts (labels and data; type, colours and options of a
  chart are configuration constants and are left out).
\<close>

record state =
  allRows :: "project list"
  domainFilter :: select
  statusFilter :: select
  facultyFilter :: select
  totalProjectsEl :: jsstring
  totalFundingEl :: jsstring
  uniqueDomainsEl :: jsstring
  statusBreakdownEl :: jsstring
  tableBody :: "jsstring list list"
  projectsByDomain :: "chart option"
  fundingByDomain :: "chart option"
  projectsByStatus :: "chart option"

definition applyFilters :: "state \<Rightarrow> project list \<Rightarrow> project list" where
  "applyFilters st rows =
     (let domain = select_value (domainFilter st);
          status = select_value (statusFilter st);
          faculty = select_value (facultyFilter st)
      in filter (\<lambda>r.
           let domainOk = (domain = [] \<or> Domain' r = domain);
               statusOk = (status = [] \<or> Status r = status);
               facultyOk = (faculty = [] \<or> FacultyName r = faculty)
           in domainOk \<and> statusOk \<and> facultyOk) rows)"

definition collect_values ::
  "jsstring list \<times> jsstring list \<times> jsstring list \<Rightarrow> project
     \<Rightarrow> jsstring list \<times> jsstring list \<times> jsstring list" where
  "collect_values sets r =
     (case sets of (domains, statuses, faculties) \<Rightarrow>
        (if Domain' r \<noteq> [] then set_add domains (Domain' r) else domains,
         if Status r \<noteq> [] then set_add statuses (Status r) else statuses,
         if FacultyName r \<noteq> [] then set_add faculties (FacultyName r) else faculties))"

definition populateFilterOptions :: "engine \<Rightarrow> state \<Rightarrow> project list \<Rightarrow> state" where
  "populateFilterOptions E st rows =
     (case foldl collect_values ([], [], []) rows of (domains, statuses, faculties) \<Rightarrow>
        st\<lparr>domainFilter := fillSelect E (domainFilter st) domains,
           statusFilter := fillSelect E (statusFilter st) statuses,
           facultyFilter := fillSelect E (facultyFilter st) faculties\<rparr>)"

section \<open>Rendering\<close>

definition clearSummary :: "state \<Rightarrow> state" where
  "clearSummary st =
     st\<lparr>totalProjectsEl := lit ''-'', totalFundingEl := lit ''-'',
        uniqueDomainsEl := lit ''-'', statusBreakdownEl := lit ''-''\<rparr>"

fun join :: "jsstring \<Rightarrow> jsstring list \<Rightarrow> jsstring" where
  "join sep [] = []"
| "join sep [x] = x"
| "join sep (x # y # ys) = x @ sep @ join sep (y # ys)"

definition count_status :: "engine \<Rightarrow> jsobject \<Rightarrow> project \<Rightarrow> jsobject" where
  "count_status E acc r =
     (let key = str_or (Status r) (lit ''Unknown'')
      in obj_set acc key (js_plus E (js_or (obj_get acc key) (Num (Fin 0))) (Num (Fin 1))))"

definition updateSummary :: "engine \<Rightarrow> state \<Rightarrow> project list \<Rightarrow> state" where
  "updateSummary E st rows =
     (let totalProjects = Fin (of_nat (length rows));
          totalFunding = foldl (\<lambda>sum r. jsadd E sum (num_or_zero (Amount r))) (Fin 0) rows;
          uniqueDomains =
            Fin (of_nat (length (foldl set_add [] (filter (\<lambda>d. d \<noteq> []) (map Domain' rows)))));
          statusCounts = foldl (count_status E) [] rows
      in st\<lparr>totalProjectsEl := Number_toString E totalProjects,
            totalFundingEl := toFixed2 E totalFunding,
            uniqueDomainsEl := Number_toString E uniqueDomains,
            statusBreakdownEl :=
              join (lit '' | '')
                (map (\<lambda>(status, n). status @ lit '': '' @ ToString E n)
                   (Object_entries statusCounts))\<rparr>)"

definition clearTable :: "state \<Rightarrow> state" where
  "clearTable st = st\<lparr>tableBody := []\<rparr>"

definition renderTable :: "engine \<Rightarrow> state \<Rightarrow> project list \<Rightarrow> state" where
  "renderTable E st rows =
     (clearTable st)\<lparr>tableBody :=
        map (\<lambda>r. [Domain' r, ProjectType r, Title r, FundingAgency r,
                  toFixed2 E (Amount r), Status r, FacultyName r]) rows\<rparr>"

definition clearCharts :: "state \<Rightarrow> state" where
  "clearCharts st =
     st\<lparr>projectsByDomain := None, fundingByDomain := None, projectsByStatus := None\<rparr>"

text \<open>\<open>a ?? b\<close>.\<close>

definition nullish_or :: "jsval \<Rightarrow> jsval \<Rightarrow> jsval" where
  "nullish_or a b = (if a = Undefined \<or> a = Null then b else a)"

definition renderCharts :: "engine \<Rightarrow> state \<Rightarrow> project list \<Rightarrow> state" where
  "renderCharts E st rows =
     (let byDomain = aggregateBy E rows (\<lambda>r. str_or (Domain' r) (lit ''Unknown'')) None;
          fundingBy = aggregateBy E rows (\<lambda>r. str_or (Domain' r) (lit ''Unknown''))
                        (Some (\<lambda>r. num_or_zero (Amount r)));
          byStatus = aggregateBy E rows (\<lambda>r. str_or (Status r) (lit ''Unknown'')) None;
          domainLabels = Object_keys byDomain;
          domainCounts = map (obj_get byDomain) domainLabels;
          domainFunding = map (\<lambda>d. nullish_or (obj_get fundingBy d) (Num (Fin 0))) domainLabels;
          statusLabels = Object_keys byStatus;
          statusCounts = map (obj_get byStatus) statusLabels
      in (clearCharts st)
           \<lparr>projectsByDomain := Some \<lparr>labels = domainLabels, series = domainCounts\<rparr>,
            fundingByDomain := Some \<lparr>labels = domainLabels, series = domainFunding\<rparr>,
            projectsByStatus := Some \<lparr>labels = statusLabels, series = statusCounts\<rparr>\<rparr>)"

definition render :: "engine \<Rightarrow> state \<Rightarrow> project list \<Rightarrow> state" where
  "render E st rows =
     (if rows = [] then clearCharts (clearTable (clearSummary st))
      else
        let filtered = applyFilters st rows
        in renderCharts E (renderTable E (updateSummary E st filtered) filtered) filtered)"

section \<open>Loading a file\<close>

text \<open>
  The spreadsheet library: \<open>XLSX.read\<close> yields a workbook or throws, \<open>sheet_to_json\<close> turns
  a worksheet (or \<open>undefined\<close>) into raw rows, blank cells defaulting to the empty string.
\<close>

datatype jserror = Error jsstring

record 'ws workbook =
  SheetNames :: "jsstring list"
  Sheets :: "jsstring \<rightharpoonup> 'ws"

record 'ws xlsx =
  XLSX_read :: "8 word list \<Rightarrow> jserror + 'ws workbook"
  sheet_to_json :: "'ws option \<Rightarrow> row list"

text \<open>\<open>workbook.Sheets[workbook.SheetNames[0]]\<close>.\<close>

definition first_sheet :: "'ws workbook \<Rightarrow> 'ws option" where
  "first_sheet wb = (case SheetNames wb of [] \<Rightarrow> None | n # ns \<Rightarrow> Sheets wb n)"

text \<open>
  The \<open>onload\<close> callback of the reader, which the browser calls once the bytes are read.
  An exception of \<open>XLSX.read\<close> leaves the callback at once, and nothing in the program
  catches it: the result is that uncaught exception, if any, and the state the callback
  leaves behind.
\<close>

definition onload :: "engine \<Rightarrow> 'ws xlsx \<Rightarrow> state \<Rightarrow> 8 word list \<Rightarrow> jserror option \<times> state" where
  "onload E X st bytes =
     (case XLSX_read X bytes of
        Inl e \<Rightarrow> (Some e, st)
      | Inr wb \<Rightarrow>
          let worksheet = first_sheet wb;
              json = sheet_to_json X worksheet;
              st1 = st\<lparr>allRows := map (normalizeRow E) json\<rparr>;
              st2 = populateFilterOptions E st1 (allRows st1)
          in (None, render E st2 (allRows st2)))"

text \<open>
  \<open>handleFileUpload\<close> itself: without a selected file it returns; otherwise it starts the
  reader on the first file and returns. In both cases its caller receives \<open>undefined\<close>, and
  the state is not touched; \<open>reading\<close> is the file whose bytes the reader will pass to
  \<open>onload\<close>.
\<close>

record upload =
  outcome :: "jserror + jsval"
  reading :: "8 word list option"

definition handleFileUpload :: "8 word list list \<Rightarrow> upload" where
  "handleFileUpload files =
     (case files of
        [] \<Rightarrow> \<lparr> outcome = Inr Undefined, reading = None \<rparr>
      | file # fs \<Rightarrow> \<lparr> outcome = Inr Undefined, reading = Some file \<rparr>)"

section \<open>A reference engine for worked examples\<close>

text \<open>
  Concrete stand-ins for the engine's part, for evaluating the program on examples:
  a rounding that keeps every number below the overflow threshold as it is (right for the
  numbers that are doubles), decimal digits (exact for integers and short decimal
  fractions), two-digit fixed notation, the default collation on ASCII letters
  (alphabetical, lower case before upper case at a tie), and the text of built-in
  functions.
\<close>

definition demo_round64 :: "rat \<Rightarrow> rat option" where
  "demo_round64 q = (if 2 ^ 1024 \<le> \<bar>q\<bar> then None else Some q)"

fun nat_digits :: "nat \<Rightarrow> nat \<Rightarrow> jsstring" where
  "nat_digits 0 n = []"
| "nat_digits (Suc fuel) n =
     (if n < 10 then [48 + of_nat n] else nat_digits fuel (n div 10) @ [48 + of_nat (n mod 10)])"

fun frac_digits :: "nat \<Rightarrow> rat \<Rightarrow> jsstring" where
  "frac_digits 0 q = []"
| "frac_digits (Suc fuel) q =
     (if q = 0 then []
      else (48 + of_int \<lfloor>q * 10\<rfloor>) # frac_digits fuel (q * 10 - of_int \<lfloor>q * 10\<rfloor>))"

definition demo_digits :: "rat \<Rightarrow> jsstring" where
  "demo_digits q =
     (let i = \<lfloor>\<bar>q\<bar>\<rfloor>; f = frac_digits 17 (\<bar>q\<bar> - of_int i)
      in (if q < 0 then lit ''-'' else []) @ nat_digits 22 (nat i)
           @ (if f = [] then [] else lit ''.'' @ f))"

definition demo_toFixed2 :: "jsnum \<Rightarrow> jsstring" where
  "demo_toFixed2 n =
     (case n of
        NaN \<Rightarrow> lit ''NaN''
      | PosInf \<Rightarrow> lit ''Infinity''
      | NegInf \<Rightarrow> lit ''-Infinity''
      | Fin q \<Rightarrow>
          let m = nat \<lfloor>\<bar>q\<bar> * 100 + 1 / 2\<rfloor>
          in (if q < 0 then lit ''-'' else []) @ nat_digits 22 (m div 100) @ lit ''.''
               @ nat_digits 1 (m mod 100 div 10) @ nat_digits 1 (m mod 10))"

definition fold_case :: "cu \<Rightarrow> cu" where
  "fold_case c = (if 65 \<le> c \<and> c \<le> 90 then c + 32 else c)"

fun compare_units :: "jsstring \<Rightarrow> jsstring \<Rightarrow> int" where
  "compare_units [] [] = 0"
| "compare_units [] (y # ys) = - 1"
| "compare_units (x # xs) [] = 1"
| "compare_units (x # xs) (y # ys) =
     (if x < y then - 1 else if y < x then 1 else compare_units xs ys)"

definition demo_localeCompare :: "jsstring \<Rightarrow> jsstring \<Rightarrow> int" where
  "demo_localeCompare a b =
     (let primary = compare_units (map fold_case a) (map fold_case b)
      in if primary \<noteq> 0 then primary else - compare_units a b)"

definition demo_builtin_text :: "jsstring \<Rightarrow> jsstring" where
  "demo_builtin_text k =
     (if k = lit ''__proto__'' then lit ''[object Object]''
      else lit ''function '' @ (if k = lit ''constructor'' then lit ''Object'' else k)
             @ lit ''() { [native code] }'')"

definition demo_engine :: engine where
  "demo_engine =
     \<lparr> round64 = demo_round64, number_digits = demo_digits, toFixed2 = demo_toFixed2,
       localeCompare = demo_localeCompare, builtin_text = demo_builtin_text \<rparr>"

text \<open>A page without rows, each select holding only the \<open>All\<close> option, and an empty record.\<close>

definition empty_select :: select where
  "empty_select = \<lparr> options = [([], lit ''All'')], selectedIndex = Some 0 \<rparr>"

definition initial_state :: state where
  "initial_state =
     \<lparr> allRows = [], domainFilter = empty_select, statusFilter = empty_select,
       facultyFilter = empty_select, totalProjectsEl = lit ''-'', totalFundingEl = lit ''-'',
       uniqueDomainsEl = lit ''-'', statusBreakdownEl = lit ''-'', tableBody = [],
       projectsByDomain = None, fundingByDomain = None, projectsByStatus = None \<rparr>"

definition blank :: project where
  "blank = \<lparr> Domain' = [], ProjectType = [], Title = [], FundingAgency = [],
             Amount = Fin 0, Status = [], FacultyName = [] \<rparr>"

text \<open>
  A stand-in for the spreadsheet library on two files: a ZIP archive without entries (the
  end-of-central-directory record alone), on which \<open>XLSX.read\<close> throws, and any other file,
  taken as a workbook with one sheet without rows, as the library reads the empty file.
\<close>

definition empty_zip :: "8 word list" where
  "empty_zip = [80, 75, 5, 6] @ replicate 18 0"

definition demo_xlsx :: "row list xlsx" where
  "demo_xlsx =
     \<lparr> XLSX_read = (\<lambda>bytes. if take 4 bytes = [80, 75, 5, 6]
                      then Inl (Error (lit ''Unsupported ZIP file''))
                      else Inr \<lparr> SheetNames = [lit ''Sheet1''], Sheets = [lit ''Sheet1'' \<mapsto> []] \<rparr>),
       sheet_to_json = (\<lambda>ws. case ws of None \<Rightarrow> [] | Some rows \<Rightarrow> rows) \<rparr>"

text \<open>A select whose second option, with the given value, is the selected one.\<close>

definition select_with :: "jsstring \<Rightarrow> select" where
  "select_with v = \<lparr> options = [([], lit ''All''), (v, v)], selectedIndex = Some 1 \<rparr>"

section \<open>The specification's notions\<close>

text \<open>
  A field of a record matches a selection when the selection is empty or equals the
  field's value; a record matches when its domain, status and faculty all do.
\<close>

definition field_matches :: "jsstring \<Rightarrow> jsstring \<Rightarrow> bool" where
  "field_matches selected v = (selected = [] \<or> v = selected)"

definition selection_matches :: "jsstring \<Rightarrow> jsstring \<Rightarrow> jsstring \<Rightarrow> project \<Rightarrow> bool" where
  "selection_matches d s f r =
     (field_matches d (Domain' r) \<and> field_matches s (Status r) \<and> field_matches f (FacultyName r))"

text \<open>The parsed amount with \<open>NaN\<close> replaced by zero.\<close>

definition nan_to_zero :: "jsnum \<Rightarrow> jsnum" where
  "nan_to_zero n = (if n = NaN then Fin 0 else n)"

text \<open>A text field: the trimmed string form of a truthy cell, the empty string otherwise.\<close>

definition text_field :: "engine \<Rightarrow> jsval \<Rightarrow> jsstring" where
  "text_field E v = (if ToBoolean v then trim (ToString E v) else [])"

text \<open>The order in which distinct keys are first met while scanning a list: \<open>seen\<close> holds
  those met so far.\<close>

fun first_seen :: "'a list \<Rightarrow> 'a list \<Rightarrow> 'a list" where
  "first_seen seen [] = seen"
| "first_seen seen (k # ks) = first_seen (if k \<in> set seen then seen else seen @ [k]) ks"

text \<open>What a record contributes: the value function's result, or 1 without a value function.\<close>

definition value_of :: "(project \<Rightarrow> jsnum) option \<Rightarrow> project \<Rightarrow> jsnum" where
  "value_of valueFn r = (case valueFn of Some f \<Rightarrow> f r | None \<Rightarrow> Fin 1)"

text \<open>The key a record is counted under: \<open>keyFn(r) || "Unknown"\<close>.\<close>

definition group_key :: "(project \<Rightarrow> jsstring) \<Rightarrow> project \<Rightarrow> jsstring" where
  "group_key keyFn r = (if keyFn r = [] then lit ''Unknown'' else keyFn r)"

text \<open>
  Additive accumulation into one key: each contribution is added to what the key holds,
  with 0 for a key that holds nothing yet.
\<close>

definition accumulate :: "engine \<Rightarrow> jsval \<Rightarrow> jsnum list \<Rightarrow> jsval" where
  "accumulate E a xs = foldl (\<lambda>a x. js_plus E (js_or a (Num (Fin 0))) (Num x)) a xs"

text \<open>Numbers that are integers, and the integer of such a number.\<close>

fun whole_number :: "jsnum \<Rightarrow> bool" where
  "whole_number (Fin q) = is_whole q"
| "whole_number NaN = False"
| "whole_number PosInf = False"
| "whole_number NegInf = False"

fun int_value :: "jsnum \<Rightarrow> int" where
  "int_value (Fin q) = \<lfloor>q\<rfloor>"
| "int_value NaN = 0"
| "int_value PosInf = 0"
| "int_value NegInf = 0"

text \<open>Two grouping values that differ at most by an exchange of the empty string and
  \<open>Unknown\<close>; two records whose domain and status are such, with the same amount.\<close>

definition swap_unknown :: "jsstring \<Rightarrow> jsstring \<Rightarrow> bool" where
  "swap_unknown a b = (a = b \<or> (a = [] \<and> b = lit ''Unknown'') \<or> (a = lit ''Unknown'' \<and> b = []))"

definition unknown_variant :: "project \<Rightarrow> project \<Rightarrow> bool" where
  "unknown_variant r r' =
     (swap_unknown (Domain' r) (Domain' r') \<and> swap_unknown (Status r) (Status r')
      \<and> Amount r = Amount r')"

text \<open>The values of an aggregation result in key order, and their sum with \<open>+\<close>.\<close>

definition Object_values :: "jsobject \<Rightarrow> jsval list" where
  "Object_values obj = map (obj_get obj) (Object_keys obj)"

definition sum_of_values :: "engine \<Rightarrow> jsobject \<Rightarrow> jsval" where
  "sum_of_values E obj = foldl (js_plus E) (Num (Fin 0)) (Object_values obj)"

text \<open>The distinct non-empty values of a field, in the order of their first occurrence.\<close>

definition distinct_values :: "(project \<Rightarrow> jsstring) \<Rightarrow> project list \<Rightarrow> jsstring list" where
  "distinct_values f rows = first_seen [] (filter (\<lambda>v. v \<noteq> []) (map f rows))"

text \<open>The three filterable fields, the record field and the select of each.\<close>

datatype field = DomainField | StatusField | FacultyField

fun field_value :: "field \<Rightarrow> project \<Rightarrow> jsstring" where
  "field_value DomainField = Domain'"
| "field_value StatusField = Status"
| "field_value FacultyField = FacultyName"

fun field_filter :: "field \<Rightarrow> state \<Rightarrow> select" where
  "field_filter DomainField = domainFilter"
| "field_filter StatusField = statusFilter"
| "field_filter FacultyField = facultyFilter"

text \<open>A comparator that is total and transitive on a set of values.\<close>

definition consistent_on :: "('a \<Rightarrow> 'a \<Rightarrow> int) \<Rightarrow> 'a set \<Rightarrow> bool" where
  "consistent_on cmp S =
     ((\<forall>a \<in> S. \<forall>b \<in> S. cmp a b \<le> 0 \<or> cmp b a \<le> 0)
      \<and> (\<forall>a \<in> S. \<forall>b \<in> S. \<forall>c \<in> S. cmp a b \<le> 0 \<longrightarrow> cmp b c \<le> 0 \<longrightarrow> cmp a c \<le> 0))"

section \<open>Properties of the normalizer\<close>

lemma is_whole_Ints: "is_whole q \<longleftrightarrow> q \<in> \<int>"
  by (auto simp: is_whole_def Ints_def)

lemma is_whole_of_int: "is_whole (of_int n)"
  by (simp add: is_whole_def)

lemma to_double_zero: "to_double E 0 = Fin 0"
  by (simp add: to_double_def is_whole_def)

lemmas parse_defs = parseFloat_def unsigned_literal_def exponent_part_def isWhiteSpace_def
  isDigit_def digits_value_def pow10_def replace_commas_def lit_def to_double_zero

lemma num_or_zero_nan: "num_or_zero n = nan_to_zero n"
  by (simp add: num_or_zero_def nan_to_zero_def)

lemma parse_falsy:
  "parseFloat E (replace_commas (lit ''undefined'')) = NaN"
  "parseFloat E (replace_commas (lit ''null'')) = NaN"
  "parseFloat E (replace_commas (lit ''false'')) = NaN"
  "parseFloat E (replace_commas (lit ''NaN'')) = NaN"
  "parseFloat E (replace_commas []) = NaN"
  "parseFloat E (replace_commas (lit ''0'')) = Fin 0"
  by (simp_all add: parse_defs)

lemma amount_of_cell:
  "num_or_zero (parseFloat E (replace_commas (ToString E (js_or v (Str (lit ''0''))))))
     = nan_to_zero (parseFloat E (replace_commas (ToString E v)))"
proof (cases "ToBoolean v")
  case True
  then show ?thesis by (simp add: js_or_def num_or_zero_nan)
next
  case False
  then have "v = Undefined \<or> v = Null \<or> v = Bool False \<or> v = Num NaN \<or> v = Num (Fin 0) \<or> v = Str []"
    by (cases v) auto
  then show ?thesis
    using False
    by (auto simp: js_or_def num_or_zero_nan nan_to_zero_def parse_falsy Number_toString_def
        simp del: ToBoolean.simps)
qed

text \<open>
  C2, as the code has it: the amount is the number \<open>parseFloat\<close> reads from the cell's string
  form without its commas, with \<open>NaN\<close> replaced by 0. It is never \<open>NaN\<close>, and the function
  has no failing branch. It need not be finite: \<open>parseFloat\<close> reads \<open>Infinity\<close>, which
  \<open>|| 0\<close> keeps.
\<close>

theorem normalizeRow_amount:
  "Amount (normalizeRow E r) =
     nan_to_zero (parseFloat E (replace_commas (ToString E (row_get r (lit ''Amount(in lakhs)'')))))
   \<and> Amount (normalizeRow E r) \<noteq> NaN"
  by (simp add: normalizeRow_def amount_of_cell nan_to_zero_def)

theorem normalizeRow_amount_witness:
  "Amount (normalizeRow demo_engine [lit ''Amount(in lakhs)'' \<mapsto> Str (lit ''1,234.5'')]) = Fin (2469 / 2)
   \<and> Amount (normalizeRow demo_engine [lit ''Amount(in lakhs)'' \<mapsto> Str (lit ''abc'')]) = Fin 0
   \<and> Amount (normalizeRow demo_engine [lit ''Amount(in lakhs)'' \<mapsto> Str (lit ''2,500'')]) = Fin 2500"
  using normalizeRow_amount [of demo_engine "[lit ''Amount(in lakhs)'' \<mapsto> Str (lit ''1,234.5'')]"]
    normalizeRow_amount [of demo_engine "[lit ''Amount(in lakhs)'' \<mapsto> Str (lit ''abc'')]"]
    normalizeRow_amount [of demo_engine "[lit ''Amount(in lakhs)'' \<mapsto> Str (lit ''2,500'')]"]
  by (simp add: row_get_def nan_to_zero_def parse_defs to_double_def is_whole_Ints
      demo_engine_def demo_round64_def)

text \<open>C2 as stated fails: the cell text \<open>Infinity\<close> normalizes to an amount that is not finite.\<close>

theorem normalizeRow_amount_infinite:
  "\<not> is_finite (Amount (normalizeRow demo_engine [lit ''Amount(in lakhs)'' \<mapsto> Str (lit ''Infinity'')]))"
  by (simp add: normalizeRow_def row_get_def js_or_def num_or_zero_def parse_defs)

text \<open>
  C7, as the code has it: each of the six text fields is the trimmed string form of its
  cell when the cell is truthy, and the empty string when the cell is absent or falsy
  (the empty string, 0, \<open>NaN\<close>, \<open>false\<close>, \<open>null\<close>); an absent amount column gives 0. Every
  field of the record is defined, by its type.
\<close>

theorem normalizeRow_fields:
  "Domain' (normalizeRow E r) = text_field E (row_get r (lit ''Domain''))
   \<and> ProjectType (normalizeRow E r) = text_field E (row_get r (lit ''Project Type''))
   \<and> Title (normalizeRow E r) = text_field E (row_get r (lit ''Title''))
   \<and> FundingAgency (normalizeRow E r) = text_field E (row_get r (lit ''Funding Agency''))
   \<and> Status (normalizeRow E r) = text_field E (row_get r (lit ''Status''))
   \<and> FacultyName (normalizeRow E r) = text_field E (row_get r (lit ''Faculty Name''))
   \<and> (r (lit ''Amount(in lakhs)'') = None \<longrightarrow> Amount (normalizeRow E r) = Fin 0)
   \<and> (\<forall>k. r k = None \<longrightarrow> text_field E (row_get r k) = [])"
  by (simp add: normalizeRow_def text_field_def js_or_def trim_def row_get_def num_or_zero_def
      parse_falsy [unfolded replace_commas_def, simplified] parse_defs)

theorem normalizeRow_fields_witness:
  "Domain' (normalizeRow demo_engine [lit ''Domain'' \<mapsto> Str (lit '' AI ''), lit ''Status'' \<mapsto> Bool True])
     = lit ''AI''
   \<and> Status (normalizeRow demo_engine [lit ''Domain'' \<mapsto> Str (lit '' AI ''), lit ''Status'' \<mapsto> Bool True])
     = lit ''true''
   \<and> Title (normalizeRow demo_engine [lit ''Domain'' \<mapsto> Str (lit '' AI ''), lit ''Status'' \<mapsto> Bool True])
     = []
   \<and> Amount (normalizeRow demo_engine [lit ''Domain'' \<mapsto> Str (lit '' AI ''), lit ''Status'' \<mapsto> Bool True])
     = Fin 0"
  using normalizeRow_fields
    [of demo_engine "[lit ''Domain'' \<mapsto> Str (lit '' AI ''), lit ''Status'' \<mapsto> Bool True]"]
  by (simp add: text_field_def row_get_def trim_def isWhiteSpace_def lit_def)

text \<open>
  C7 as stated fails: a cell that is present and holds the number 0 has the string form
  \<open>0\<close>, but the normalized field is the empty string.
\<close>

theorem normalizeRow_zero_cell:
  "Domain' (normalizeRow demo_engine [lit ''Domain'' \<mapsto> Num (Fin 0)])
     \<noteq> trim (ToString demo_engine (Num (Fin 0)))"
  by (simp add: normalizeRow_def row_get_def js_or_def trim_def Number_toString_def lit_def isWhiteSpace_def)

section \<open>Properties of the filter\<close>

text \<open>
  C1: \<open>applyFilters\<close> keeps exactly the records that match the selection in all three
  fields (a field matches when its selection is empty or equal to the record's value), as
  a subsequence of the input in the input's order.
\<close>

theorem applyFilters_conjunction:
  "applyFilters st rows =
     filter (selection_matches (select_value (domainFilter st)) (select_value (statusFilter st))
               (select_value (facultyFilter st))) rows
   \<and> subseq (applyFilters st rows) rows
   \<and> set (applyFilters st rows) =
       {r. r \<in> set rows \<and> selection_matches (select_value (domainFilter st))
              (select_value (statusFilter st)) (select_value (facultyFilter st)) r}"
proof -
  let ?P = "selection_matches (select_value (domainFilter st)) (select_value (statusFilter st))
              (select_value (facultyFilter st))"
  have eq: "applyFilters st rows = filter ?P rows"
    unfolding applyFilters_def Let_def
    by (rule filter_cong) (simp_all add: selection_matches_def field_matches_def)
  have "subseq (filter ?P rows) rows"
    by simp
  moreover have "set (filter ?P rows) = {r. r \<in> set rows \<and> ?P r}"
    by auto
  ultimately show ?thesis
    using eq by simp
qed

theorem applyFilters_conjunction_witness:
  "applyFilters (initial_state\<lparr>domainFilter := select_with (lit ''AI'')\<rparr>)
     [blank\<lparr>Domain' := lit ''AI'', Status := lit ''Ongoing''\<rparr>,
      blank\<lparr>Domain' := lit ''Bio''\<rparr>,
      blank\<lparr>Domain' := lit ''ai''\<rparr>,
      blank\<lparr>Domain' := lit ''AI'', Status := lit ''Completed''\<rparr>]
   = [blank\<lparr>Domain' := lit ''AI'', Status := lit ''Ongoing''\<rparr>,
      blank\<lparr>Domain' := lit ''AI'', Status := lit ''Completed''\<rparr>]"
  using applyFilters_conjunction
    [of "initial_state\<lparr>domainFilter := select_with (lit ''AI'')\<rparr>"
        "[blank\<lparr>Domain' := lit ''AI'', Status := lit ''Ongoing''\<rparr>,
          blank\<lparr>Domain' := lit ''Bio''\<rparr>,
          blank\<lparr>Domain' := lit ''ai''\<rparr>,
          blank\<lparr>Domain' := lit ''AI'', Status := lit ''Completed''\<rparr>]"]
  by (simp add: selection_matches_def field_matches_def select_value_def select_with_def
      initial_state_def empty_select_def blank_def lit_def)

section \<open>Properties of loading\<close>

lemma allRows_populate: "allRows (populateFilterOptions E st rows) = allRows st"
  by (simp add: populateFilterOptions_def split: prod.splits)

lemma allRows_render: "allRows (render E st rows) = allRows st"
  by (simp add: render_def renderCharts_def renderTable_def updateSummary_def clearCharts_def
      clearTable_def clearSummary_def Let_def)

text \<open>
  C9, as the code has it: when \<open>XLSX.read\<close> throws on the file's bytes, the \<open>onload\<close> callback
  ends with that exception, which nothing catches, and leaves the state (record set,
  selects, summary, table and charts) as it was before the load; a file the library reads
  replaces the record set by its normalized rows. \<open>handleFileUpload\<close> has returned
  \<open>undefined\<close> to its caller before, whatever the file holds: no failure is signalled to a
  caller.
\<close>

theorem parse_failure_keeps_state:
  "(XLSX_read X bytes = Inl e \<longrightarrow> onload E X st bytes = (Some e, st))
   \<and> (XLSX_read X bytes = Inr wb \<longrightarrow>
        fst (onload E X st bytes) = None
        \<and> allRows (snd (onload E X st bytes))
             = map (normalizeRow E) (sheet_to_json X (first_sheet wb)))
   \<and> handleFileUpload (bytes # fs) = \<lparr> outcome = Inr Undefined, reading = Some bytes \<rparr>
   \<and> handleFileUpload [] = \<lparr> outcome = Inr Undefined, reading = None \<rparr>"
  by (simp add: onload_def handleFileUpload_def Let_def allRows_render allRows_populate)

theorem parse_failure_keeps_state_witness:
  "XLSX_read demo_xlsx empty_zip = Inl (Error (lit ''Unsupported ZIP file''))
   \<and> onload demo_engine demo_xlsx (initial_state\<lparr>allRows := [blank]\<rparr>) empty_zip
       = (Some (Error (lit ''Unsupported ZIP file'')), initial_state\<lparr>allRows := [blank]\<rparr>)
   \<and> XLSX_read demo_xlsx []
       = Inr \<lparr> SheetNames = [lit ''Sheet1''], Sheets = [lit ''Sheet1'' \<mapsto> []] \<rparr>
   \<and> allRows (snd (onload demo_engine demo_xlsx (initial_state\<lparr>allRows := [blank]\<rparr>) [])) = []"
proof -
  have f: "XLSX_read demo_xlsx empty_zip = Inl (Error (lit ''Unsupported ZIP file''))"
    by (simp add: demo_xlsx_def empty_zip_def)
  have r: "XLSX_read demo_xlsx []
       = Inr \<lparr> SheetNames = [lit ''Sheet1''], Sheets = [lit ''Sheet1'' \<mapsto> []] \<rparr>"
    by (simp add: demo_xlsx_def)
  have s: "sheet_to_json demo_xlsx
             (first_sheet \<lparr> SheetNames = [lit ''Sheet1''], Sheets = [lit ''Sheet1'' \<mapsto> []] \<rparr>) = []"
    by (simp add: demo_xlsx_def first_sheet_def)
  show ?thesis
    using f r s
      parse_failure_keeps_state [of demo_xlsx empty_zip "Error (lit ''Unsupported ZIP file'')"
        demo_engine "initial_state\<lparr>allRows := [blank]\<rparr>"]
      parse_failure_keeps_state [of demo_xlsx "[]" _ demo_engine "initial_state\<lparr>allRows := [blank]\<rparr>"
        "\<lparr> SheetNames = [lit ''Sheet1''], Sheets = [lit ''Sheet1'' \<mapsto> []] \<rparr>"]
    by simp
qed

text \<open>
  C9 as stated fails: on a ZIP archive without entries the parse fails, yet the caller of
  \<open>handleFileUpload\<close> receives \<open>undefined\<close>, the same as for a file that loads.
\<close>

theorem parse_failure_not_signalled:
  "XLSX_read demo_xlsx empty_zip = Inl (Error (lit ''Unsupported ZIP file''))
   \<and> outcome (handleFileUpload [empty_zip]) = Inr Undefined
   \<and> outcome (handleFileUpload [empty_zip]) = outcome (handleFileUpload [[]])"
  by (simp add: demo_xlsx_def empty_zip_def handleFileUpload_def)

section \<open>Properties of plain objects and aggregation\<close>

lemma set_first_seen: "set (first_seen seen ks) = set seen \<union> set ks"
  by (induction ks arbitrary: seen) auto

lemma distinct_first_seen: "distinct seen \<Longrightarrow> distinct (first_seen seen ks)"
  by (induction ks arbitrary: seen) auto

lemma unknown_not_empty: "lit ''Unknown'' \<noteq> []"
  by (simp add: lit_def)

lemma unknown_not_builtin: "lit ''Unknown'' \<notin> set proto_names"
  by (simp add: proto_names_def lit_def)

lemma proto_is_builtin: "lit ''__proto__'' \<in> set proto_names"
  by (simp add: proto_names_def)

lemma aggregate_step_key:
  "aggregate_step E keyFn valueFn acc r =
     obj_set acc (group_key keyFn r)
       (js_plus E (js_or (obj_get acc (group_key keyFn r)) (Num (Fin 0))) (Num (value_of valueFn r)))"
  by (simp add: aggregate_step_def group_key_def value_of_def str_or_def Let_def)

lemma group_key_not_empty: "group_key keyFn r \<noteq> []"
  by (simp add: group_key_def unknown_not_empty)

lemma keys_obj_set:
  "map fst (obj_set acc k v) =
     (if k = lit ''__proto__'' \<or> k \<in> set (map fst acc) then map fst acc else map fst acc @ [k])"
  by (simp add: obj_set_def update_keys)

lemma own_keys_foldl:
  "lit ''__proto__'' \<notin> set (map (group_key keyFn) rows) \<Longrightarrow>
     map fst (foldl (aggregate_step E keyFn valueFn) acc rows)
       = first_seen (map fst acc) (map (group_key keyFn) rows)"
proof (induction rows arbitrary: acc)
  case Nil
  then show ?case by simp
next
  case (Cons r rows)
  have k: "group_key keyFn r \<noteq> lit ''__proto__''"
    using Cons.prems by auto
  have "map fst (aggregate_step E keyFn valueFn acc r)
          = (if group_key keyFn r \<in> set (map fst acc) then map fst acc
             else map fst acc @ [group_key keyFn r])"
    using k by (simp add: aggregate_step_key keys_obj_set)
  then show ?case
    using Cons.IH [of "aggregate_step E keyFn valueFn acc r"] Cons.prems by simp
qed

lemma key_set_foldl:
  "set (map fst (foldl (aggregate_step E keyFn valueFn) acc rows))
     = set (map fst acc) \<union> (group_key keyFn ` set rows - {lit ''__proto__''})"
proof (induction rows arbitrary: acc)
  case Nil
  then show ?case by simp
next
  case (Cons r rows)
  have "set (map fst (aggregate_step E keyFn valueFn acc r))
          = set (map fst acc) \<union> ({group_key keyFn r} - {lit ''__proto__''})"
    by (auto simp: aggregate_step_key keys_obj_set)
  then show ?case
    using Cons.IH [of "aggregate_step E keyFn valueFn acc r"] by auto
qed

lemma set_key_order: "set (key_order ks) = set ks"
  by (auto simp: key_order_def)


lemma obj_get_set_same: "k \<notin> set proto_names \<Longrightarrow> obj_get (obj_set acc k v) k = v"
  using proto_is_builtin by (auto simp: obj_get_def obj_set_def update_conv')

lemma obj_get_set_other: "k' \<noteq> k \<Longrightarrow> obj_get (obj_set acc k' v) k = obj_get acc k"
  by (simp add: obj_get_def obj_set_def update_conv')

lemma bucket_foldl:
  "K \<notin> set proto_names \<Longrightarrow>
     obj_get (foldl (aggregate_step E keyFn valueFn) acc rows) K =
       accumulate E (obj_get acc K)
         (map (value_of valueFn) (filter (\<lambda>r. group_key keyFn r = K) rows))"
proof (induction rows arbitrary: acc)
  case Nil
  then show ?case by (simp add: accumulate_def)
next
  case (Cons r rows)
  show ?case
  proof (cases "group_key keyFn r = K")
    case True
    have "obj_get (aggregate_step E keyFn valueFn acc r) K =
            js_plus E (js_or (obj_get acc K) (Num (Fin 0))) (Num (value_of valueFn r))"
      using True Cons.prems by (simp add: aggregate_step_key obj_get_set_same)
    then show ?thesis
      using Cons.IH [OF Cons.prems, of "aggregate_step E keyFn valueFn acc r"] True
      by (simp add: accumulate_def)
  next
    case False
    have "obj_get (aggregate_step E keyFn valueFn acc r) K = obj_get acc K"
      using False by (simp add: aggregate_step_key obj_get_set_other)
    then show ?thesis
      using Cons.IH [OF Cons.prems, of "aggregate_step E keyFn valueFn acc r"] False
      by simp
  qed
qed

lemma accumulate_whole:
  "\<forall>x \<in> set xs. whole_number x \<Longrightarrow>
     accumulate E (Num (Fin (of_int c))) xs = Num (Fin (of_int (c + sum_list (map int_value xs))))"
proof (induction xs arbitrary: c)
  case Nil
  then show ?case by (simp add: accumulate_def)
next
  case (Cons x xs)
  have "whole_number x"
    using Cons.prems by simp
  then obtain n where x: "x = Fin (of_int n)"
    by (cases x) (auto simp: is_whole_def)
  have "js_or (Num (Fin (of_int c))) (Num (Fin 0)) = Num (Fin (of_int c))"
    by (simp add: js_or_def)
  then have "js_plus E (js_or (Num (Fin (of_int c))) (Num (Fin 0))) (Num x)
               = Num (Fin (of_int (c + n)))"
    using is_whole_of_int [of "c + n"] by (simp add: js_plus_def x)
  then have "accumulate E (Num (Fin (of_int c))) (x # xs) = accumulate E (Num (Fin (of_int (c + n)))) xs"
    by (simp add: accumulate_def)
  also have "\<dots> = Num (Fin (of_int (c + n + sum_list (map int_value xs))))"
    using Cons.IH [of "c + n"] Cons.prems by simp
  finally show ?case
    by (simp add: x add.assoc)
qed

lemma accumulate_whole_unseen:
  assumes "\<forall>x \<in> set xs. whole_number x"
  shows "accumulate E Undefined xs =
           (if xs = [] then Undefined else Num (Fin (of_int (sum_list (map int_value xs)))))"
proof (cases xs)
  case Nil
  then show ?thesis by (simp add: accumulate_def)
next
  case (Cons x ys)
  have "whole_number x"
    using assms Cons by simp
  then obtain n where x: "x = Fin (of_int n)"
    by (cases x) (auto simp: is_whole_def)
  have "js_plus E (js_or Undefined (Num (Fin 0))) (Num x) = Num (Fin (of_int n))"
    using is_whole_of_int [of n] by (simp add: js_plus_def js_or_def x)
  then have "accumulate E Undefined (x # ys) = accumulate E (Num (Fin (of_int n))) ys"
    by (simp add: accumulate_def)
  also have "\<dots> = Num (Fin (of_int (n + sum_list (map int_value ys))))"
    using assms Cons by (intro accumulate_whole) simp
  finally show ?thesis
    using Cons by (simp add: x)
qed

lemma count_values: "sum_list (map int_value (map (value_of None) xs)) = int (length xs)"
  by (induction xs) (simp_all add: value_of_def)

lemma unknown_bucket:
  "obj_get (aggregateBy E rows keyFn valueFn) (lit ''Unknown'') =
     accumulate E Undefined
       (map (value_of valueFn) (filter (\<lambda>r. keyFn r = [] \<or> keyFn r = lit ''Unknown'') rows))"
proof -
  have eq: "(\<lambda>r. group_key keyFn r = lit ''Unknown'') = (\<lambda>r. keyFn r = [] \<or> keyFn r = lit ''Unknown'')"
    by (auto simp: group_key_def)
  have "obj_get [] (lit ''Unknown'') = Undefined"
    using unknown_not_builtin by (simp add: obj_get_def)
  then show ?thesis
    using bucket_foldl [OF unknown_not_builtin, of E keyFn valueFn "[]" rows]
    by (simp add: aggregateBy_def eq)
qed

lemma unknown_bucket_count:
  "obj_get (aggregateBy E rows keyFn None) (lit ''Unknown'') =
     (if \<exists>r \<in> set rows. keyFn r = [] \<or> keyFn r = lit ''Unknown''
      then Num (Fin (of_nat (length (filter (\<lambda>r. keyFn r = [] \<or> keyFn r = lit ''Unknown'') rows))))
      else Undefined)"
proof -
  let ?xs = "map (value_of None) (filter (\<lambda>r. keyFn r = [] \<or> keyFn r = lit ''Unknown'') rows)"
  have whole: "\<forall>x \<in> set ?xs. whole_number x"
    using is_whole_of_int [of 1] by (auto simp: value_of_def)
  have "accumulate E Undefined ?xs =
          (if ?xs = [] then Undefined else Num (Fin (of_int (sum_list (map int_value ?xs)))))"
    by (rule accumulate_whole_unseen [OF whole])
  moreover have "?xs = [] \<longleftrightarrow> \<not> (\<exists>r \<in> set rows. keyFn r = [] \<or> keyFn r = lit ''Unknown'')"
    by (simp add: filter_empty_conv)
  ultimately show ?thesis
    by (simp add: unknown_bucket count_values del: map_map)
qed

lemmas agg_eval = aggregateBy_def aggregate_step_def str_or_def obj_get_def obj_set_def
  proto_names_def js_or_def js_plus_def Let_def

lemmas key_eval = Object_keys_def key_order_def array_index_def index_value_def isDigit_def
  digits_value_def



text \<open>
  C4, as the code has it: for keys other than \<open>__proto__\<close>, the own properties of the
  result are created in first-occurrence order, and \<open>Object.keys\<close> lists first the keys that
  are array indices, in ascending numeric order, then the other keys in first-occurrence
  order. When no key is an array index this is the first-occurrence order.
\<close>

theorem aggregateBy_key_order:
  assumes "lit ''__proto__'' \<notin> set (map (group_key keyFn) rows)"
  shows "map fst (aggregateBy E rows keyFn valueFn) = first_seen [] (map (group_key keyFn) rows)
   \<and> Object_keys (aggregateBy E rows keyFn valueFn) =
       sort_key index_value
         (filter (\<lambda>k. array_index k \<noteq> None) (first_seen [] (map (group_key keyFn) rows)))
       @ filter (\<lambda>k. array_index k = None) (first_seen [] (map (group_key keyFn) rows))
   \<and> sorted (map index_value (sort_key index_value
         (filter (\<lambda>k. array_index k \<noteq> None) (first_seen [] (map (group_key keyFn) rows)))))
   \<and> ((\<forall>k \<in> set (map (group_key keyFn) rows). array_index k = None) \<longrightarrow>
        Object_keys (aggregateBy E rows keyFn valueFn) = first_seen [] (map (group_key keyFn) rows))"
proof -
  let ?fs = "first_seen [] (map (group_key keyFn) rows)"
  have own: "map fst (aggregateBy E rows keyFn valueFn) = ?fs"
    using own_keys_foldl [OF assms, of E valueFn "[]"] by (simp add: aggregateBy_def)
  have keys: "Object_keys (aggregateBy E rows keyFn valueFn) =
       sort_key index_value (filter (\<lambda>k. array_index k \<noteq> None) ?fs)
       @ filter (\<lambda>k. array_index k = None) ?fs"
    by (simp add: Object_keys_def key_order_def own)
  have set_fs: "set ?fs = set (map (group_key keyFn) rows)"
    by (simp add: set_first_seen)
  have plain: "(\<forall>k \<in> set (map (group_key keyFn) rows). array_index k = None) \<longrightarrow>
        Object_keys (aggregateBy E rows keyFn valueFn) = ?fs"
  proof
    assume "\<forall>k \<in> set (map (group_key keyFn) rows). array_index k = None"
    then have none: "\<forall>k \<in> set ?fs. array_index k = None"
      using set_fs by simp
    then have "filter (\<lambda>k. array_index k \<noteq> None) ?fs = []"
      by (simp add: filter_empty_conv)
    moreover have "filter (\<lambda>k. array_index k = None) ?fs = ?fs"
      using none by (simp add: filter_id_conv)
    ultimately show "Object_keys (aggregateBy E rows keyFn valueFn) = ?fs"
      using keys by simp
  qed
  show ?thesis
    using own keys plain by (simp add: sorted_sort_key)
qed

theorem aggregateBy_key_order_witness:
  "Object_keys (aggregateBy demo_engine
      [blank\<lparr>Domain' := lit ''Bio''\<rparr>, blank\<lparr>Domain' := lit ''AI''\<rparr>, blank\<lparr>Domain' := lit ''Bio''\<rparr>]
      Domain' None) = [lit ''Bio'', lit ''AI'']"
proof -
  have h: "lit ''__proto__'' \<notin> set (map (group_key Domain')
      [blank\<lparr>Domain' := lit ''Bio''\<rparr>, blank\<lparr>Domain' := lit ''AI''\<rparr>, blank\<lparr>Domain' := lit ''Bio''\<rparr>])"
    by (simp add: group_key_def blank_def lit_def)
  show ?thesis
    using aggregateBy_key_order [OF h, of demo_engine None]
    by (simp add: group_key_def blank_def lit_def array_index_def isDigit_def)
qed

text \<open>
  C4 as stated fails: for the domains \<open>Bio\<close>, \<open>7\<close> the keys are enumerated as \<open>7\<close>, \<open>Bio\<close>,
  while the first-occurrence order is \<open>Bio\<close>, \<open>7\<close>.
\<close>

theorem aggregateBy_index_key_first:
  "Object_keys (aggregateBy demo_engine
      [blank\<lparr>Domain' := lit ''Bio''\<rparr>, blank\<lparr>Domain' := lit ''7''\<rparr>] Domain' None)
     = [lit ''7'', lit ''Bio'']
   \<and> first_seen [] (map Domain' [blank\<lparr>Domain' := lit ''Bio''\<rparr>, blank\<lparr>Domain' := lit ''7''\<rparr>])
     = [lit ''Bio'', lit ''7'']"
  by (simp add: agg_eval key_eval blank_def lit_def)

section \<open>Additivity of aggregation\<close>

lemma distinct_key_order: "distinct ks \<Longrightarrow> distinct (key_order ks)"
  by (auto simp: key_order_def)

lemma foldl_plus_numbers:
  "foldl (js_plus E) (Num (Fin (of_int a))) (map (\<lambda>k. Num (Fin (of_int (b k)))) ks)
     = Num (Fin (of_int (a + sum_list (map b ks))))"
proof (induction ks arbitrary: a)
  case Nil
  then show ?case by simp
next
  case (Cons k ks)
  have "js_plus E (Num (Fin (of_int a))) (Num (Fin (of_int (b k)))) = Num (Fin (of_int (a + b k)))"
    using is_whole_of_int [of "a + b k"] by (simp add: js_plus_def)
  then show ?case
    using Cons.IH [of "a + b k"] by (simp add: add.assoc)
qed

lemma bucket_sums_total:
  fixes w :: "'r \<Rightarrow> int"
  assumes "finite S"
  shows "g ` set rows \<subseteq> S \<Longrightarrow>
         (\<Sum>K \<in> S. sum_list (map w (filter (\<lambda>r. g r = K) rows))) = sum_list (map w rows)"
proof (induction rows)
  case Nil
  then show ?case by simp
next
  case (Cons r rows)
  have in_S: "g r \<in> S" and rest: "g ` set rows \<subseteq> S"
    using Cons.prems by auto
  have "(\<Sum>K \<in> S. sum_list (map w (filter (\<lambda>r. g r = K) (r # rows))))
          = (\<Sum>K \<in> S. (if g r = K then w r else 0) + sum_list (map w (filter (\<lambda>r. g r = K) rows)))"
    by (rule sum.cong) simp_all
  also have "\<dots> = (\<Sum>K \<in> S. if g r = K then w r else 0)
                    + (\<Sum>K \<in> S. sum_list (map w (filter (\<lambda>r. g r = K) rows)))"
    by (rule sum.distrib)
  also have "(\<Sum>K \<in> S. if g r = K then w r else 0) = w r"
    using assms in_S by simp
  finally show ?case
    using Cons.IH [OF rest] by simp
qed

text \<open>
  Where no key is the name of a member of \<open>Object.prototype\<close> and every contribution is an
  integer, as when counting, the values of the result add up to the sum of the
  contributions.
\<close>

lemma aggregateBy_additive:
  assumes safe: "\<forall>r \<in> set rows. group_key keyFn r \<notin> set proto_names"
    and whole: "\<forall>r \<in> set rows. whole_number (value_of valueFn r)"
  shows "sum_of_values E (aggregateBy E rows keyFn valueFn)
           = Num (Fin (of_int (sum_list (map (\<lambda>r. int_value (value_of valueFn r)) rows))))"
proof -
  let ?obj = "aggregateBy E rows keyFn valueFn"
  let ?w = "\<lambda>r. int_value (value_of valueFn r)"
  let ?bucket = "\<lambda>K. sum_list (map ?w (filter (\<lambda>r. group_key keyFn r = K) rows))"
  have no_proto: "lit ''__proto__'' \<notin> set (map (group_key keyFn) rows)"
    using safe proto_is_builtin by auto
  have own: "map fst ?obj = first_seen [] (map (group_key keyFn) rows)"
    using own_keys_foldl [OF no_proto, of E valueFn "[]"] by (simp add: aggregateBy_def)
  have keys_set: "set (Object_keys ?obj) = group_key keyFn ` set rows"
    by (simp add: Object_keys_def set_key_order own set_first_seen)
  have keys_distinct: "distinct (Object_keys ?obj)"
    by (simp add: Object_keys_def own distinct_key_order distinct_first_seen)
  have val: "obj_get ?obj K = Num (Fin (of_int (?bucket K)))" if "K \<in> set (Object_keys ?obj)" for K
  proof -
    let ?xs = "map (value_of valueFn) (filter (\<lambda>r. group_key keyFn r = K) rows)"
    have K: "K \<notin> set proto_names" and seen: "K \<in> group_key keyFn ` set rows"
      using that keys_set safe by auto
    have "obj_get [] K = Undefined"
      using K by (simp add: obj_get_def)
    then have "obj_get ?obj K = accumulate E Undefined ?xs"
      using bucket_foldl [OF K, of E keyFn valueFn "[]" rows] by (simp add: aggregateBy_def)
    moreover have "\<forall>x \<in> set ?xs. whole_number x"
      using whole by auto
    moreover have "?xs \<noteq> []"
      using seen by (auto simp: filter_empty_conv)
    ultimately show ?thesis
      by (simp add: accumulate_whole_unseen comp_def)
  qed
  have "Object_values ?obj = map (\<lambda>K. Num (Fin (of_int (?bucket K)))) (Object_keys ?obj)"
    unfolding Object_values_def by (rule map_cong) (simp_all add: val)
  then have "sum_of_values E ?obj = Num (Fin (of_int (0 + sum_list (map ?bucket (Object_keys ?obj)))))"
    unfolding sum_of_values_def using foldl_plus_numbers [of E 0 ?bucket "Object_keys ?obj"]
    by simp
  also have "sum_list (map ?bucket (Object_keys ?obj)) = (\<Sum>K \<in> set (Object_keys ?obj). ?bucket K)"
    using keys_distinct by (rule sum_list_distinct_conv_sum_set)
  also have "\<dots> = sum_list (map ?w rows)"
    unfolding keys_set by (rule bucket_sums_total) simp_all
  finally show ?thesis
    by simp
qed

lemma aggregateBy_count_additive:
  assumes "\<forall>r \<in> set rows. group_key keyFn r \<notin> set proto_names"
  shows "sum_of_values E (aggregateBy E rows keyFn None) = Num (Fin (of_nat (length rows)))"
proof -
  have "\<forall>r \<in> set rows. whole_number (value_of None r)"
    using is_whole_of_int [of 1] by (simp add: value_of_def)
  from aggregateBy_additive [OF assms this] show ?thesis
    using count_values [of rows] by (simp add: comp_def)
qed

text \<open>
  C3 on the code: a record whose key is \<open>__proto__\<close> leaves the accumulator without any own
  property, so the values of the result sum to 0 although one record was counted.
\<close>

theorem aggregateBy_proto_key_lost:
  "aggregateBy demo_engine [blank\<lparr>Domain' := lit ''__proto__''\<rparr>] Domain' None = []
   \<and> sum_of_values demo_engine
       (aggregateBy demo_engine [blank\<lparr>Domain' := lit ''__proto__''\<rparr>] Domain' None) = Num (Fin 0)
   \<and> length [blank\<lparr>Domain' := lit ''__proto__''\<rparr>] = 1"
  by (simp add: agg_eval sum_of_values_def Object_values_def key_eval blank_def lit_def)

section \<open>The bucket of unknown values\<close>

lemma foldl_aggregate_cong:
  "list_all2 (\<lambda>r r'. group_key k r = group_key k' r' \<and> value_of v r = value_of v' r') rows rows' \<Longrightarrow>
     foldl (aggregate_step E k v) acc rows = foldl (aggregate_step E k' v') acc rows'"
proof (induction rows rows' arbitrary: acc rule: list_all2_induct)
  case Nil
  then show ?case by simp
next
  case (Cons r rows r' rows')
  have "aggregate_step E k v acc r = aggregate_step E k' v' acc r'"
    using Cons.hyps(1) by (simp add: aggregate_step_key)
  then show ?case
    using Cons.IH by simp
qed

lemma swap_unknown_key: "swap_unknown a b \<Longrightarrow> str_or a (lit ''Unknown'') = str_or b (lit ''Unknown'')"
  by (auto simp: swap_unknown_def str_or_def)

lemma swap_unknown_group: "swap_unknown (k r) (k r') \<Longrightarrow> group_key k r = group_key k r'"
  by (auto simp: swap_unknown_def group_key_def)

lemma count_status_step: "count_status E = aggregate_step E Status None"
  by (rule ext, rule ext) (simp add: count_status_def aggregate_step_def Let_def)

lemma swapped_aggregate:
  assumes "list_all2 (\<lambda>r r'. swap_unknown (k r) (k r') \<and> value_of v r = value_of v r') rows rows'"
  shows "aggregateBy E rows k v = aggregateBy E rows' k v"
proof -
  have "list_all2 (\<lambda>r r'. group_key k r = group_key k r' \<and> value_of v r = value_of v r') rows rows'"
    using assms by (rule list_all2_mono) (simp add: swap_unknown_group)
  then show ?thesis
    unfolding aggregateBy_def by (rule foldl_aggregate_cong)
qed

lemma substituted_key:
  "aggregateBy E rows (\<lambda>r. str_or (k r) (lit ''Unknown'')) v = aggregateBy E rows k v"
proof -
  have "group_key (\<lambda>r. str_or (k r) (lit ''Unknown'')) r = group_key k r" for r
    by (simp add: group_key_def str_or_def unknown_not_empty)
  then have "list_all2 (\<lambda>r r'. group_key (\<lambda>r. str_or (k r) (lit ''Unknown'')) r = group_key k r'
                \<and> value_of v r = value_of v r') rows rows"
    by (simp add: list_all2_same)
  then show ?thesis
    unfolding aggregateBy_def by (rule foldl_aggregate_cong)
qed

lemma renderCharts_plain:
  "renderCharts E st rows =
     (clearCharts st)
       \<lparr>projectsByDomain :=
          Some \<lparr>labels = Object_keys (aggregateBy E rows Domain' None),
                series = map (obj_get (aggregateBy E rows Domain' None))
                           (Object_keys (aggregateBy E rows Domain' None))\<rparr>,
        fundingByDomain :=
          Some \<lparr>labels = Object_keys (aggregateBy E rows Domain' None),
                series = map (\<lambda>d. nullish_or
                                 (obj_get (aggregateBy E rows Domain' (Some (\<lambda>r. num_or_zero (Amount r)))) d)
                                 (Num (Fin 0)))
                           (Object_keys (aggregateBy E rows Domain' None))\<rparr>,
        projectsByStatus :=
          Some \<lparr>labels = Object_keys (aggregateBy E rows Status None),
                series = map (obj_get (aggregateBy E rows Status None))
                           (Object_keys (aggregateBy E rows Status None))\<rparr>\<rparr>"
  unfolding renderCharts_def Let_def substituted_key by (rule refl)

lemma charts_content:
  "projectsByDomain (renderCharts E st rows)
     = Some \<lparr> labels = Object_keys (aggregateBy E rows Domain' None),
              series = Object_values (aggregateBy E rows Domain' None) \<rparr>"
  "fundingByDomain (renderCharts E st rows)
     = Some \<lparr> labels = Object_keys (aggregateBy E rows Domain' None),
              series = map (\<lambda>d. nullish_or
                               (obj_get (aggregateBy E rows Domain' (Some (\<lambda>r. num_or_zero (Amount r)))) d)
                               (Num (Fin 0)))
                         (Object_keys (aggregateBy E rows Domain' None)) \<rparr>"
  "projectsByStatus (renderCharts E st rows)
     = Some \<lparr> labels = Object_keys (aggregateBy E rows Status None),
              series = Object_values (aggregateBy E rows Status None) \<rparr>"
  unfolding renderCharts_plain Object_values_def by simp_all

lemma breakdown_content:
  "statusBreakdownEl (updateSummary E st rows)
     = join (lit '' | '')
         (map (\<lambda>(status, n). status @ lit '': '' @ ToString E n)
            (Object_entries (aggregateBy E rows Status None)))"
  by (simp add: updateSummary_def Let_def count_status_step aggregateBy_def)

lemma variant_outputs:
  assumes "list_all2 unknown_variant rows rows'"
  shows "renderCharts E st rows = renderCharts E st rows'"
    and "statusBreakdownEl (updateSummary E st rows) = statusBreakdownEl (updateSummary E st rows')"
proof -
  have d: "list_all2 (\<lambda>r r'. swap_unknown (Domain' r) (Domain' r')
              \<and> value_of None r = value_of None r') rows rows'"
    using assms by (rule list_all2_mono) (simp add: unknown_variant_def value_of_def)
  have a: "list_all2 (\<lambda>r r'. swap_unknown (Domain' r) (Domain' r')
              \<and> value_of (Some (\<lambda>r. num_or_zero (Amount r))) r
                  = value_of (Some (\<lambda>r. num_or_zero (Amount r))) r') rows rows'"
    using assms by (rule list_all2_mono) (simp add: unknown_variant_def value_of_def)
  have s: "list_all2 (\<lambda>r r'. swap_unknown (Status r) (Status r')
              \<and> value_of None r = value_of None r') rows rows'"
    using assms by (rule list_all2_mono) (simp add: unknown_variant_def value_of_def)
  have e1: "aggregateBy E rows Domain' None = aggregateBy E rows' Domain' None"
    by (rule swapped_aggregate [OF d])
  have e2: "aggregateBy E rows Domain' (Some (\<lambda>r. num_or_zero (Amount r)))
              = aggregateBy E rows' Domain' (Some (\<lambda>r. num_or_zero (Amount r)))"
    by (rule swapped_aggregate [OF a])
  have e3: "aggregateBy E rows Status None = aggregateBy E rows' Status None"
    by (rule swapped_aggregate [OF s])
  show "renderCharts E st rows = renderCharts E st rows'"
    by (simp only: renderCharts_plain e1 e2 e3)
  show "statusBreakdownEl (updateSummary E st rows) = statusBreakdownEl (updateSummary E st rows')"
    by (simp add: breakdown_content e3)
qed

text \<open>
  C10: for every record list, key function and value function, a record whose key is
  empty and a record whose key is \<open>Unknown\<close> are accumulated by the same step into the key
  \<open>Unknown\<close>, whose value is the accumulation of the contributions of both kinds (their
  number when counting); the empty string is never a key. Hence exchanging the empty
  string and \<open>Unknown\<close> in the keys of any records changes no aggregation result, and
  exchanging them in the domain or status of any records changes none of the three charts,
  which show the aggregations by domain and by status, nor the status breakdown of the
  summary, which lists the counts by status.
\<close>

theorem unknown_indistinguishable:
  "(keyFn r = [] \<or> keyFn r = lit ''Unknown'' \<longrightarrow>
      aggregate_step E keyFn valueFn acc r =
        obj_set acc (lit ''Unknown'')
          (js_plus E (js_or (obj_get acc (lit ''Unknown'')) (Num (Fin 0))) (Num (value_of valueFn r))))
   \<and> obj_get (aggregateBy E rows keyFn valueFn) (lit ''Unknown'') =
       accumulate E Undefined
         (map (value_of valueFn) (filter (\<lambda>r. keyFn r = [] \<or> keyFn r = lit ''Unknown'') rows))
   \<and> obj_get (aggregateBy E rows keyFn None) (lit ''Unknown'') =
       (if \<exists>r \<in> set rows. keyFn r = [] \<or> keyFn r = lit ''Unknown''
        then Num (Fin (of_nat (length (filter (\<lambda>r. keyFn r = [] \<or> keyFn r = lit ''Unknown'') rows))))
        else Undefined)
   \<and> [] \<notin> fst ` set (aggregateBy E rows keyFn valueFn)
   \<and> (list_all2 (\<lambda>r r'. swap_unknown (keyFn r) (keyFn r') \<and> value_of valueFn r = value_of valueFn r')
         rows rows' \<longrightarrow>
        aggregateBy E rows keyFn valueFn = aggregateBy E rows' keyFn valueFn)
   \<and> (list_all2 unknown_variant rows rows' \<longrightarrow>
        renderCharts E st rows = renderCharts E st rows'
        \<and> statusBreakdownEl (updateSummary E st rows) = statusBreakdownEl (updateSummary E st rows'))
   \<and> projectsByDomain (renderCharts E st rows)
       = Some \<lparr> labels = Object_keys (aggregateBy E rows Domain' None),
                series = Object_values (aggregateBy E rows Domain' None) \<rparr>
   \<and> fundingByDomain (renderCharts E st rows)
       = Some \<lparr> labels = Object_keys (aggregateBy E rows Domain' None),
                series = map (\<lambda>d. nullish_or
                                 (obj_get (aggregateBy E rows Domain' (Some (\<lambda>r. num_or_zero (Amount r)))) d)
                                 (Num (Fin 0)))
                           (Object_keys (aggregateBy E rows Domain' None)) \<rparr>
   \<and> projectsByStatus (renderCharts E st rows)
       = Some \<lparr> labels = Object_keys (aggregateBy E rows Status None),
                series = Object_values (aggregateBy E rows Status None) \<rparr>
   \<and> statusBreakdownEl (updateSummary E st rows)
       = join (lit '' | '')
           (map (\<lambda>(status, n). status @ lit '': '' @ ToString E n)
              (Object_entries (aggregateBy E rows Status None)))"
proof -
  have step: "keyFn r = [] \<or> keyFn r = lit ''Unknown'' \<longrightarrow>
      aggregate_step E keyFn valueFn acc r =
        obj_set acc (lit ''Unknown'')
          (js_plus E (js_or (obj_get acc (lit ''Unknown'')) (Num (Fin 0))) (Num (value_of valueFn r)))"
    by (auto simp: aggregate_step_key group_key_def)
  have keys: "fst ` set (aggregateBy E rows keyFn valueFn)
                = group_key keyFn ` set rows - {lit ''__proto__''}"
    using key_set_foldl [of E keyFn valueFn "[]" rows] by (simp add: aggregateBy_def)
  have no_empty: "[] \<notin> fst ` set (aggregateBy E rows keyFn valueFn)"
  proof
    assume "[] \<in> fst ` set (aggregateBy E rows keyFn valueFn)"
    then have "[] \<in> group_key keyFn ` set rows"
      unfolding keys by simp
    then obtain r where "[] = group_key keyFn r"
      by auto
    then show False
      using group_key_not_empty [of keyFn r] by simp
  qed
  have swapped: "list_all2 (\<lambda>r r'. swap_unknown (keyFn r) (keyFn r') \<and> value_of valueFn r = value_of valueFn r')
         rows rows' \<longrightarrow>
        aggregateBy E rows keyFn valueFn = aggregateBy E rows' keyFn valueFn"
    by (rule impI) (rule swapped_aggregate)
  have outputs: "list_all2 unknown_variant rows rows' \<longrightarrow>
        renderCharts E st rows = renderCharts E st rows'
        \<and> statusBreakdownEl (updateSummary E st rows) = statusBreakdownEl (updateSummary E st rows')"
    by (intro impI conjI) (erule variant_outputs)+
  show ?thesis
    by (intro conjI)
      (rule step, rule unknown_bucket, rule unknown_bucket_count, rule no_empty, rule swapped,
        rule outputs, rule charts_content, rule charts_content, rule charts_content,
        rule breakdown_content)
qed

theorem unknown_indistinguishable_witness:
  "list_all2 (\<lambda>r r'. swap_unknown (Domain' r) (Domain' r') \<and> value_of None r = value_of None r')
     [blank, blank\<lparr>Domain' := lit ''AI''\<rparr>] [blank\<lparr>Domain' := lit ''Unknown''\<rparr>, blank\<lparr>Domain' := lit ''AI''\<rparr>]
   \<and> list_all2 unknown_variant
     [blank, blank\<lparr>Domain' := lit ''AI''\<rparr>] [blank\<lparr>Domain' := lit ''Unknown''\<rparr>, blank\<lparr>Domain' := lit ''AI''\<rparr>]
   \<and> aggregateBy demo_engine [blank, blank\<lparr>Domain' := lit ''AI''\<rparr>] Domain' None
       = aggregateBy demo_engine [blank\<lparr>Domain' := lit ''Unknown''\<rparr>, blank\<lparr>Domain' := lit ''AI''\<rparr>] Domain' None
   \<and> obj_get (aggregateBy demo_engine [blank, blank\<lparr>Domain' := lit ''AI''\<rparr>] Domain' None)
       (lit ''Unknown'') = Num (Fin 1)
   \<and> obj_get (aggregateBy demo_engine [blank\<lparr>Domain' := lit ''Unknown''\<rparr>, blank\<lparr>Domain' := lit ''AI''\<rparr>]
         Domain' None) (lit ''Unknown'') = Num (Fin 1)
   \<and> aggregate_step demo_engine Domain' None [] blank
       = aggregate_step demo_engine Domain' None [] (blank\<lparr>Domain' := lit ''Unknown''\<rparr>)
   \<and> renderCharts demo_engine initial_state [blank, blank\<lparr>Domain' := lit ''AI''\<rparr>]
       = renderCharts demo_engine initial_state [blank\<lparr>Domain' := lit ''Unknown''\<rparr>, blank\<lparr>Domain' := lit ''AI''\<rparr>]
   \<and> statusBreakdownEl (updateSummary demo_engine initial_state [blank, blank\<lparr>Domain' := lit ''AI''\<rparr>])
       = statusBreakdownEl (updateSummary demo_engine initial_state
           [blank\<lparr>Domain' := lit ''Unknown''\<rparr>, blank\<lparr>Domain' := lit ''AI''\<rparr>])"
proof -
  let ?rows = "[blank, blank\<lparr>Domain' := lit ''AI''\<rparr>]"
  let ?rows' = "[blank\<lparr>Domain' := lit ''Unknown''\<rparr>, blank\<lparr>Domain' := lit ''AI''\<rparr>]"
  let ?U = "lit ''Unknown''"
  note A = unknown_indistinguishable [of Domain' blank demo_engine None "[]" ?rows ?rows' initial_state]
  note B = unknown_indistinguishable [of Domain' "blank\<lparr>Domain' := ?U\<rparr>" demo_engine None "[]"
      ?rows' ?rows' initial_state]
  have h1: "list_all2 (\<lambda>r r'. swap_unknown (Domain' r) (Domain' r') \<and> value_of None r = value_of None r')
              ?rows ?rows'"
    by (simp add: swap_unknown_def value_of_def blank_def)
  have h2: "list_all2 unknown_variant ?rows ?rows'"
    by (simp add: unknown_variant_def swap_unknown_def blank_def)
  have s1: "aggregate_step demo_engine Domain' None [] blank =
              obj_set [] ?U (js_plus demo_engine (js_or (obj_get [] ?U) (Num (Fin 0)))
                               (Num (value_of None blank)))"
    using A [THEN conjunct1] by (simp add: blank_def)
  have s2: "aggregate_step demo_engine Domain' None [] (blank\<lparr>Domain' := ?U\<rparr>) =
              obj_set [] ?U (js_plus demo_engine (js_or (obj_get [] ?U) (Num (Fin 0)))
                               (Num (value_of None (blank\<lparr>Domain' := ?U\<rparr>))))"
    using B [THEN conjunct1] by simp
  have step: "aggregate_step demo_engine Domain' None [] blank
                = aggregate_step demo_engine Domain' None [] (blank\<lparr>Domain' := ?U\<rparr>)"
    using s1 s2 by (simp add: value_of_def)
  have c1: "obj_get (aggregateBy demo_engine ?rows Domain' None) ?U = Num (Fin 1)"
    using A [THEN conjunct2, THEN conjunct2, THEN conjunct1] by (simp add: blank_def lit_def)
  have c2: "obj_get (aggregateBy demo_engine ?rows' Domain' None) ?U = Num (Fin 1)"
    using B [THEN conjunct2, THEN conjunct2, THEN conjunct1] by (simp add: blank_def lit_def)
  have e: "aggregateBy demo_engine ?rows Domain' None = aggregateBy demo_engine ?rows' Domain' None"
    using A [THEN conjunct2, THEN conjunct2, THEN conjunct2, THEN conjunct2, THEN conjunct1] h1
    by (rule mp)
  have o: "renderCharts demo_engine initial_state ?rows = renderCharts demo_engine initial_state ?rows'
           \<and> statusBreakdownEl (updateSummary demo_engine initial_state ?rows)
               = statusBreakdownEl (updateSummary demo_engine initial_state ?rows')"
    using A [THEN conjunct2, THEN conjunct2, THEN conjunct2, THEN conjunct2, THEN conjunct2,
        THEN conjunct1] h2
    by (rule mp)
  show ?thesis
    by (intro conjI)
      (rule h1, rule h2, rule e, rule c1, rule c2, rule step, rule o [THEN conjunct1],
        rule o [THEN conjunct2])
qed

section \<open>Properties of the filter options\<close>

lemma set_sort_insert: "set (sort_insert cmp x ys) = insert x (set ys)"
  by (induction ys) auto

lemma set_array_sort: "set (array_sort cmp xs) = set xs"
  by (induction xs) (simp_all add: array_sort_def set_sort_insert)

lemma distinct_sort_insert: "distinct (sort_insert cmp x ys) = (x \<notin> set ys \<and> distinct ys)"
  by (induction ys) (auto simp: set_sort_insert)

lemma distinct_array_sort: "distinct (array_sort cmp xs) = distinct xs"
  by (induction xs) (simp_all add: array_sort_def distinct_sort_insert set_array_sort [unfolded array_sort_def])

lemma sorted_sort_insert:
  assumes c: "consistent_on cmp S" and x: "x \<in> S"
  shows "set ys \<subseteq> S \<Longrightarrow> sorted_wrt (\<lambda>a b. cmp a b \<le> 0) ys \<Longrightarrow>
         sorted_wrt (\<lambda>a b. cmp a b \<le> 0) (sort_insert cmp x ys)"
proof (induction ys)
  case Nil
  then show ?case by simp
next
  case (Cons y ys)
  have y: "y \<in> S" and ys: "set ys \<subseteq> S"
    using Cons.prems(1) by auto
  have below: "\<forall>z \<in> set ys. cmp y z \<le> 0"
    using Cons.prems(2) by simp
  show ?case
  proof (cases "cmp x y \<le> 0")
    case True
    have "\<forall>z \<in> set ys. cmp x z \<le> 0"
    proof
      fix z assume z: "z \<in> set ys"
      then have "cmp y z \<le> 0" using below by simp
      moreover have "z \<in> S" using z ys by auto
      ultimately show "cmp x z \<le> 0"
        using c x y True unfolding consistent_on_def by blast
    qed
    then show ?thesis
      using True Cons.prems(2) by simp
  next
    case False
    then have "cmp y x \<le> 0"
      using c x y unfolding consistent_on_def by blast
    then have "\<forall>z \<in> set (sort_insert cmp x ys). cmp y z \<le> 0"
      using below by (simp add: set_sort_insert)
    moreover have "sorted_wrt (\<lambda>a b. cmp a b \<le> 0) (sort_insert cmp x ys)"
      using Cons.IH ys Cons.prems(2) by simp
    ultimately show ?thesis
      using False by simp
  qed
qed

lemma sorted_array_sort:
  "consistent_on cmp S \<Longrightarrow> set xs \<subseteq> S \<Longrightarrow> sorted_wrt (\<lambda>a b. cmp a b \<le> 0) (array_sort cmp xs)"
proof (induction xs)
  case Nil
  then show ?case by (simp add: array_sort_def)
next
  case (Cons x xs)
  have "sorted_wrt (\<lambda>a b. cmp a b \<le> 0) (sort_insert cmp x (array_sort cmp xs))"
    using Cons by (intro sorted_sort_insert [where S = S]) (auto simp: set_array_sort)
  then show ?case
    by (simp add: array_sort_def)
qed

lemma options_append_all:
  "options (foldl (\<lambda>s v. append_option s (v, v)) s vs) = options s @ map (\<lambda>v. (v, v)) vs"
  by (induction vs arbitrary: s) (simp_all add: append_option_def)

lemma selected_append_all:
  "selectedIndex s = Some i \<Longrightarrow>
     selectedIndex (foldl (\<lambda>s v. append_option s (v, v)) s vs) = Some i"
  by (induction vs arbitrary: s) (simp_all add: append_option_def)

lemma first_index_Some: "first_index p xs = Some i \<Longrightarrow> i < length xs \<and> p (xs ! i)"
proof (induction xs arbitrary: i)
  case Nil
  then show ?case by simp
next
  case (Cons x xs)
  then show ?case
    by (cases "p x") (auto split: option.splits)
qed

lemma first_index_None: "first_index p xs = None \<longleftrightarrow> (\<forall>x \<in> set xs. \<not> p x)"
  by (induction xs) (auto split: option.splits)

lemma select_value_set:
  "select_value (set_select_value s v) = (if \<exists>opt \<in> set (options s). fst opt = v then v else [])"
proof (cases "first_index (\<lambda>opt. fst opt = v) (options s)")
  case None
  then show ?thesis
    using first_index_None [of "\<lambda>opt. fst opt = v" "options s"]
    by (simp add: select_value_def set_select_value_def)
next
  case (Some i)
  then have i: "i < length (options s)" "fst (options s ! i) = v"
    using first_index_Some by fastforce+
  then have "\<exists>opt \<in> set (options s). fst opt = v"
    using nth_mem by blast
  then show ?thesis
    using Some i by (simp add: select_value_def set_select_value_def)
qed

lemma fillSelect_options:
  "options (fillSelect E sel vals)
     = ([], lit ''All'') # map (\<lambda>v. (v, v)) (array_sort (localeCompare E) vals)"
proof -
  have "options (append_option (clear_select sel) ([], lit ''All'')) = [([], lit ''All'')]"
    by (simp add: append_option_def clear_select_def)
  then show ?thesis
    by (simp add: fillSelect_def Let_def set_select_value_def options_append_all)
qed

lemma fillSelect_value:
  "select_value (fillSelect E sel vals)
     = (if select_value sel \<noteq> [] \<and> select_value sel \<in> set vals then select_value sel else [])"
proof -
  let ?s2 = "foldl (\<lambda>s v. append_option s (v, v))
               (append_option (clear_select sel) ([], lit ''All''))
               (array_sort (localeCompare E) vals)"
  have "options (append_option (clear_select sel) ([], lit ''All'')) = [([], lit ''All'')]"
    by (simp add: append_option_def clear_select_def)
  then have opts: "options ?s2 = ([], lit ''All'') # map (\<lambda>v. (v, v)) (array_sort (localeCompare E) vals)"
    by (simp add: options_append_all)
  have "selectedIndex ?s2 = Some 0"
    by (rule selected_append_all) (simp add: append_option_def clear_select_def)
  then have base: "select_value ?s2 = []"
    by (simp add: select_value_def opts)
  have found: "select_value sel \<in> set vals \<Longrightarrow>
      \<exists>opt \<in> set (options ?s2). fst opt = select_value sel"
    by (simp add: opts set_array_sort image_iff)
  show ?thesis
    using base found by (auto simp: fillSelect_def Let_def select_value_set)
qed

lemma foldl_collect:
  "foldl collect_values (d, s, f) rows =
     (first_seen d (filter (\<lambda>v. v \<noteq> []) (map Domain' rows)),
      first_seen s (filter (\<lambda>v. v \<noteq> []) (map Status rows)),
      first_seen f (filter (\<lambda>v. v \<noteq> []) (map FacultyName rows)))"
  by (induction rows arbitrary: d s f) (simp_all add: collect_values_def set_add_def)

lemma populate_field:
  "field_filter f (populateFilterOptions E st rows)
     = fillSelect E (field_filter f st) (distinct_values (field_value f) rows)"
  by (cases f) (simp_all add: populateFilterOptions_def foldl_collect distinct_values_def)

lemma set_distinct_values: "set (distinct_values f rows) = f ` set rows - {[]}"
  by (auto simp: distinct_values_def set_first_seen)

lemma distinct_distinct_values: "distinct (distinct_values f rows)"
  by (simp add: distinct_values_def distinct_first_seen)

text \<open>
  C8: after the options are rebuilt from a record list, the selection of each field is its
  previous value when that value is non-empty and occurs in the field of some record, and
  the empty (no-constraint) value otherwise; it is always the value of one of the new
  options.
\<close>

theorem stale_selection_resets:
  "select_value (field_filter f (populateFilterOptions E st rows))
     = (if select_value (field_filter f st) \<noteq> []
           \<and> select_value (field_filter f st) \<in> field_value f ` set rows
        then select_value (field_filter f st) else [])
   \<and> (select_value (field_filter f (populateFilterOptions E st rows)) = []
        \<or> select_value (field_filter f (populateFilterOptions E st rows))
             \<in> field_value f ` set rows - {[]})
   \<and> select_value (field_filter f (populateFilterOptions E st rows))
        \<in> fst ` set (options (field_filter f (populateFilterOptions E st rows)))
   \<and> (select_value (field_filter f st) \<notin> field_value f ` set rows \<longrightarrow>
        select_value (field_filter f (populateFilterOptions E st rows)) = [])"
proof -
  have v: "select_value (field_filter f (populateFilterOptions E st rows))
     = (if select_value (field_filter f st) \<noteq> []
           \<and> select_value (field_filter f st) \<in> field_value f ` set rows
        then select_value (field_filter f st) else [])"
    by (auto simp: populate_field fillSelect_value set_distinct_values)
  have o: "fst ` set (options (field_filter f (populateFilterOptions E st rows)))
             = insert [] (field_value f ` set rows)"
    by (auto simp: populate_field fillSelect_options set_array_sort set_distinct_values image_iff)
  show ?thesis
    unfolding o using v by auto
qed

theorem stale_selection_resets_witness:
  "select_value (domainFilter (initial_state\<lparr>domainFilter := select_with (lit ''AI'')\<rparr>)) = lit ''AI''
   \<and> select_value (domainFilter (populateFilterOptions demo_engine
        (initial_state\<lparr>domainFilter := select_with (lit ''AI'')\<rparr>) [blank\<lparr>Domain' := lit ''Bio''\<rparr>])) = []
   \<and> select_value (domainFilter (populateFilterOptions demo_engine
        (initial_state\<lparr>domainFilter := select_with (lit ''AI'')\<rparr>)
        [blank\<lparr>Domain' := lit ''Bio''\<rparr>, blank\<lparr>Domain' := lit ''AI''\<rparr>])) = lit ''AI''"
  using stale_selection_resets [of DomainField demo_engine
      "initial_state\<lparr>domainFilter := select_with (lit ''AI'')\<rparr>" "[blank\<lparr>Domain' := lit ''Bio''\<rparr>]"]
    stale_selection_resets [of DomainField demo_engine
      "initial_state\<lparr>domainFilter := select_with (lit ''AI'')\<rparr>"
      "[blank\<lparr>Domain' := lit ''Bio''\<rparr>, blank\<lparr>Domain' := lit ''AI''\<rparr>]"]
  by (simp add: select_value_def select_with_def initial_state_def blank_def lit_def)

text \<open>
  C6, as the code has it: the options of each field are the \<open>All\<close> option with the empty
  value followed by the distinct non-empty values of the field, sorted by \<open>localeCompare\<close>
  (in order with respect to it wherever it is total and transitive on these values).
\<close>

theorem filter_options_collated:
  assumes "consistent_on (localeCompare E) (field_value f ` set rows)"
  shows "options (field_filter f (populateFilterOptions E st rows))
           = ([], lit ''All'')
               # map (\<lambda>v. (v, v)) (array_sort (localeCompare E) (distinct_values (field_value f) rows))
   \<and> set (array_sort (localeCompare E) (distinct_values (field_value f) rows))
        = field_value f ` set rows - {[]}
   \<and> distinct (array_sort (localeCompare E) (distinct_values (field_value f) rows))
   \<and> sorted_wrt (\<lambda>a b. localeCompare E a b \<le> 0)
        (array_sort (localeCompare E) (distinct_values (field_value f) rows))"
proof -
  have "set (distinct_values (field_value f) rows) \<subseteq> field_value f ` set rows"
    by (auto simp: set_distinct_values)
  then have "sorted_wrt (\<lambda>a b. localeCompare E a b \<le> 0)
        (array_sort (localeCompare E) (distinct_values (field_value f) rows))"
    by (rule sorted_array_sort [OF assms])
  then show ?thesis
    by (simp add: populate_field fillSelect_options set_array_sort set_distinct_values
        distinct_array_sort distinct_distinct_values)
qed

lemmas cmp_eval = demo_engine_def demo_localeCompare_def fold_case_def Let_def

theorem filter_options_collated_witness:
  "consistent_on (localeCompare demo_engine)
     (field_value DomainField ` set [blank\<lparr>Domain' := lit ''B''\<rparr>, blank\<lparr>Domain' := lit ''a''\<rparr>,
                                      blank\<lparr>Domain' := lit ''B''\<rparr>])
   \<and> options (domainFilter (populateFilterOptions demo_engine initial_state
        [blank\<lparr>Domain' := lit ''B''\<rparr>, blank\<lparr>Domain' := lit ''a''\<rparr>, blank\<lparr>Domain' := lit ''B''\<rparr>]))
       = [([], lit ''All''), (lit ''a'', lit ''a''), (lit ''B'', lit ''B'')]"
proof -
  have h: "consistent_on (localeCompare demo_engine)
     (field_value DomainField ` set [blank\<lparr>Domain' := lit ''B''\<rparr>, blank\<lparr>Domain' := lit ''a''\<rparr>,
                                      blank\<lparr>Domain' := lit ''B''\<rparr>])"
    by (simp add: consistent_on_def cmp_eval blank_def lit_def)
  show ?thesis
    using h filter_options_collated [OF h, of initial_state]
    by (simp add: distinct_values_def array_sort_def cmp_eval blank_def lit_def)
qed

text \<open>
  C6 as stated fails: with the collation that puts \<open>a\<close> before \<open>B\<close>, the options for the
  domains \<open>B\<close>, \<open>a\<close> are \<open>a\<close>, \<open>B\<close>, which is not the order of the code units.
\<close>

theorem filter_options_not_ordinal:
  "map fst (options (domainFilter (populateFilterOptions demo_engine initial_state
        [blank\<lparr>Domain' := lit ''B''\<rparr>, blank\<lparr>Domain' := lit ''a''\<rparr>])))
     = [[], lit ''a'', lit ''B'']
   \<and> \<not> sorted_wrt (\<lambda>a b. compare_units a b \<le> 0) [lit ''a'', lit ''B'']"
  by (simp add: populateFilterOptions_def collect_values_def set_add_def fillSelect_def
      initial_state_def empty_select_def select_value_def clear_select_def append_option_def
      array_sort_def cmp_eval blank_def lit_def)

end
